theory Spec2Isabelle
  imports Complex_Main "HOL-Library.Word" "HOL-Library.AList"
begin

section \<open>The chain as the batch executor sees it\<close>

text \<open>
  The executor is the Solidity contract \<open>BatchTransactionContract\<close>. It has no storage
  variables of its own; what it reads and changes is the native balance of accounts
  and, through its sub-calls, the storage of other contracts. A chain state is
  therefore the balance of every address together with the state \<open>'w\<close> of everything
  else. Balances and amounts are \<open>uint256\<close> in the source; they are naturals here, and
  the two subtractions of the source, which Solidity 0.8 checks, are written with their
  check. Events are kept apart from the state: they are the log of one call frame. Gas,
  and the fee the platform charges the sender of a transaction, are outside the model.
\<close>

type_synonym address = "160 word"

type_synonym bytes = "8 word list"

record 'w chain =
  balance :: "address \<Rightarrow> nat"
  world :: 'w

text \<open>
  A call that does not return normally reverts: \<open>Error m\<close> is \<open>revert(m)\<close> or a failed
  \<open>require(c, m)\<close>, \<open>Panic\<close> a failed arithmetic check, \<open>TransferFailed\<close> a reverting
  \<open>payable(a).transfer(v)\<close>.
\<close>

datatype error = Error string | Panic nat | TransferFailed

datatype event = OperationExecuted address bool bytes

text \<open>
  The code behind the addresses a batch calls is not part of the repository. It is a
  parameter: \<open>env caller target v payload s\<close> is what the code at \<open>target\<close> does when it is
  called with \<open>v\<close> wei already credited to it in \<open>s\<close>: a success flag, the returned (or
  revert) bytes and the state it leaves. Nothing is assumed about it, so it may call
  back into the executor.
\<close>

type_synonym 'w callee = "address \<Rightarrow> address \<Rightarrow> nat \<Rightarrow> bytes \<Rightarrow> 'w chain \<Rightarrow> bool \<times> bytes \<times> 'w chain"

text \<open>
  \<open>payable(a).transfer(v)\<close> forwards 2300 gas only: the recipient's code can accept the
  payment or revert, not write storage or move value. \<open>accepts a v s\<close> says which.
\<close>

type_synonym 'w receiver = "address \<Rightarrow> nat \<Rightarrow> 'w chain \<Rightarrow> bool"

definition move :: "address \<Rightarrow> address \<Rightarrow> nat \<Rightarrow> 'w chain \<Rightarrow> 'w chain" where
  "move src dst v s =
     (let debited = (balance s)(src := balance s src - v)
      in s\<lparr>balance := debited(dst := debited dst + v)\<rparr>)"

text \<open>
  \<open>target.call{value: v}(payload)\<close>: fails at once when the caller does not hold \<open>v\<close>;
  otherwise the value moves and the target's code runs; when that fails, everything it
  did, the payment included, is undone and only the flag and the revert data remain.
\<close>

definition call :: "'w callee \<Rightarrow> address \<Rightarrow> address \<Rightarrow> nat \<Rightarrow> bytes \<Rightarrow> 'w chain \<Rightarrow> (bool \<times> bytes) \<times> 'w chain" where
  "call env src dst v payload s =
     (if balance s src < v then ((False, []), s)
      else (case env src dst v payload (move src dst v s) of
              (ok, ret, s') \<Rightarrow> if ok then ((True, ret), s') else ((False, ret), s)))"

text \<open>
  The executor's own \<open>receive()\<close> and \<open>fallback()\<close> revert every bare payment.
\<close>

definition receive :: "error + unit" where
  "receive = Inl (Error ''Direct payments not allowed'')"

definition fallback :: "error + unit" where
  "fallback = Inl (Error ''Direct payments not allowed'')"

text \<open>
  \<open>payable(dst).transfer(v)\<close> from the executor at address \<open>this\<close>; \<open>None\<close> is a revert.
  A transfer to the executor itself runs \<open>receive()\<close>.
\<close>

definition transfer :: "'w receiver \<Rightarrow> address \<Rightarrow> address \<Rightarrow> nat \<Rightarrow> 'w chain \<Rightarrow> 'w chain option" where
  "transfer accepts this dst v s =
     (if balance s this < v then None
      else if dst = this then (case receive of Inl e \<Rightarrow> None | Inr u \<Rightarrow> Some (move this dst v s))
      else if accepts dst v s then Some (move this dst v s)
      else None)"

section \<open>executeBatch\<close>

text \<open>
  The loop of \<open>executeBatch\<close>, from index \<open>i\<close>: \<open>success\<close> and \<open>results\<close> are the two
  memory arrays, \<open>evs\<close> the events emitted so far. The two \<open>require\<close>s before the loop
  make the three arrays equally long, so every index read is in range.
\<close>

function batch_loop :: "'w callee \<Rightarrow> address \<Rightarrow> address list \<Rightarrow> bytes list \<Rightarrow> nat list \<Rightarrow> nat \<Rightarrow>
    bool list \<Rightarrow> bytes list \<Rightarrow> event list \<Rightarrow> 'w chain \<Rightarrow>
    error + (bool list \<times> bytes list \<times> event list \<times> 'w chain)" where
  "batch_loop env this targets data amount i success results evs s =
     (if i < length targets then
        (case call env this (targets ! i) (amount ! i) (data ! i) s of
           ((ok, ret), s') \<Rightarrow>
             if \<not> ok
             then Inl (Error ''One of the transactions failed. Reverting all transactions.'')
             else batch_loop env this targets data amount (Suc i)
                    (success[i := ok]) (results[i := ret])
                    (evs @ [OperationExecuted (targets ! i) ok ret]) s')
      else Inr (success, results, evs, s))"
  by pat_completeness auto
termination
  by (relation "measure (\<lambda>(env, this, targets, data, amount, i, rest). length targets - i)") auto

declare batch_loop.simps [simp del]

text \<open>
  The body of \<open>executeBatch\<close>, run on the state in which \<open>msg.value\<close> is already part of
  the executor's balance. \<open>Inl\<close> is a revert of the whole call.
\<close>

definition executeBatch :: "'w callee \<Rightarrow> 'w receiver \<Rightarrow> address \<Rightarrow> address \<Rightarrow> nat \<Rightarrow>
    address list \<Rightarrow> bytes list \<Rightarrow> nat list \<Rightarrow> 'w chain \<Rightarrow>
    error + (bool list \<times> bytes list \<times> event list \<times> 'w chain)" where
  "executeBatch env accepts this msg_sender msg_value targets data amount s =
     (if length targets \<noteq> length data then Inl (Error ''Mismatched inputs'')
      else if length targets \<noteq> length amount then Inl (Error ''Mismatched inputs'')
      else
        let success = replicate (length targets) False;
            results = replicate (length targets) []
        in if balance s this < msg_value then Inl (Panic 0x11)
           else
             let initialBalance = balance s this - msg_value
             in (case batch_loop env this targets data amount 0 success results [] s of
                   Inl e \<Rightarrow> Inl e
                 | Inr (success', results', evs, s1) \<Rightarrow>
                     let finalBalance = balance s1 this
                     in if initialBalance > finalBalance
                        then Inl (Error ''ETH exceeded: Insufficient funds for transactions'')
                        else
                          let difference = finalBalance - initialBalance
                          in if difference > 0
                             then (case transfer accepts this msg_sender difference s1 of
                                     None \<Rightarrow> Inl TransferFailed
                                   | Some s2 \<Rightarrow> Inr (success', results', evs, s2))
                             else Inr (success', results', evs, s1)))"

text \<open>
  What a caller observes of one call: the returned values or the error, the events the
  call emitted, and the chain state after it. A revert undoes the call: no event, and
  the state in which the call was made.
\<close>

record ('r, 'w) receipt =
  outcome :: "error + 'r"
  emitted :: "event list"
  post :: "'w chain"

text \<open>
  A call of \<open>executeBatch\<close> by \<open>msg_sender\<close> carrying \<open>msg_value\<close>, made in state \<open>s\<close>. The
  platform debits the sender before the body runs (and only delivers a call whose value
  the sender holds).
\<close>

definition executeBatch_call :: "'w callee \<Rightarrow> 'w receiver \<Rightarrow> address \<Rightarrow> address \<Rightarrow> nat \<Rightarrow>
    address list \<Rightarrow> bytes list \<Rightarrow> nat list \<Rightarrow> 'w chain \<Rightarrow> (bool list \<times> bytes list, 'w) receipt" where
  "executeBatch_call env accepts this msg_sender msg_value targets data amount s =
     (case executeBatch env accepts this msg_sender msg_value targets data amount
             (move msg_sender this msg_value s) of
        Inl e \<Rightarrow> \<lparr>outcome = Inl e, emitted = [], post = s\<rparr>
      | Inr (success, results, evs, s') \<Rightarrow>
          \<lparr>outcome = Inr (success, results), emitted = evs, post = s'\<rparr>)"

section \<open>withdraw\<close>

definition withdraw :: "'w receiver \<Rightarrow> address \<Rightarrow> address \<Rightarrow> 'w chain \<Rightarrow> error + 'w chain" where
  "withdraw accepts this msg_sender s =
     (let bal = balance s this
      in if \<not> bal > 0 then Inl (Error ''No funds to withdraw'')
         else (case transfer accepts this msg_sender bal s of
                 None \<Rightarrow> Inl TransferFailed
               | Some s' \<Rightarrow> Inr s'))"

definition withdraw_call :: "'w receiver \<Rightarrow> address \<Rightarrow> address \<Rightarrow> 'w chain \<Rightarrow> (unit, 'w) receipt" where
  "withdraw_call accepts this msg_sender s =
     (case withdraw accepts this msg_sender s of
        Inl e \<Rightarrow> \<lparr>outcome = Inl e, emitted = [], post = s\<rparr>
      | Inr s' \<Rightarrow> \<lparr>outcome = Inr (), emitted = [], post = s'\<rparr>)"

section \<open>The run of a batch\<close>

text \<open>
  \<open>sub_state \<dots> s k\<close> is the state in which sub-call \<open>k\<close> runs when the loop starts in \<open>s\<close>
  and reaches it; \<open>sub_ok\<close> and \<open>sub_ret\<close> are the flag and the bytes that sub-call gives
  there.
\<close>

primrec sub_state :: "'w callee \<Rightarrow> address \<Rightarrow> address list \<Rightarrow> bytes list \<Rightarrow> nat list \<Rightarrow> 'w chain \<Rightarrow> nat \<Rightarrow> 'w chain" where
  "sub_state env this targets data amount s 0 = s"
| "sub_state env this targets data amount s (Suc k) =
     snd (call env this (targets ! k) (amount ! k) (data ! k) (sub_state env this targets data amount s k))"

definition sub_ok :: "'w callee \<Rightarrow> address \<Rightarrow> address list \<Rightarrow> bytes list \<Rightarrow> nat list \<Rightarrow> 'w chain \<Rightarrow> nat \<Rightarrow> bool" where
  "sub_ok env this targets data amount s k =
     fst (fst (call env this (targets ! k) (amount ! k) (data ! k) (sub_state env this targets data amount s k)))"

definition sub_ret :: "'w callee \<Rightarrow> address \<Rightarrow> address list \<Rightarrow> bytes list \<Rightarrow> nat list \<Rightarrow> 'w chain \<Rightarrow> nat \<Rightarrow> bytes" where
  "sub_ret env this targets data amount s k =
     snd (fst (call env this (targets ! k) (amount ! k) (data ! k) (sub_state env this targets data amount s k)))"

text \<open>
  The balance of \<open>a\<close> is \<open>spared\<close> in a batch when the code of each target, as that batch
  runs it, leaves the balance of \<open>a\<close> as the payment of the sub-call's amount made it.
\<close>

definition spared :: "'w callee \<Rightarrow> address \<Rightarrow> address list \<Rightarrow> bytes list \<Rightarrow> nat list \<Rightarrow> 'w chain \<Rightarrow> address \<Rightarrow> bool" where
  "spared env this targets data amount s a =
     (\<forall>j<length targets.
        balance (sub_state env this targets data amount s (Suc j)) a =
        balance (move this (targets ! j) (amount ! j) (sub_state env this targets data amount s j)) a)"

section \<open>Accounts and states of the examples\<close>

text \<open>
  \<open>plain\<close>: every target is an account without code, so a call to it succeeds and
  returns nothing. \<open>picky\<close>: the same, but the contract at address 4 reverts with the
  bytes \<open>de ad\<close> and the one at address 5 with \<open>be ef\<close>. \<open>thief\<close>: the called contract
  calls \<open>withdraw()\<close> of its caller and succeeds when that does. \<open>forwarder\<close>: the
  called contract passes what it is paid on to account 8. \<open>willing\<close> and
  \<open>refusing\<close>: every recipient of a \<open>transfer\<close> accepts it, or none does. In \<open>ledger\<close>
  account 2 holds 100 wei and nobody else anything; in \<open>funded\<close> the executor, at
  address 1, holds 7 wei as well.
\<close>

definition plain :: "unit callee" where
  "plain caller target v payload s = (True, [], s)"

definition picky :: "unit callee" where
  "picky caller target v payload s =
     (if target = 4 then (False, [0xde, 0xad], s)
      else if target = 5 then (False, [0xbe, 0xef], s)
      else (True, [], s))"

definition willing :: "unit receiver" where
  "willing a v s = True"

definition refusing :: "unit receiver" where
  "refusing a v s = False"

definition thief :: "unit callee" where
  "thief caller target v payload s =
     (case withdraw willing caller target s of
        Inl e \<Rightarrow> (False, [], s)
      | Inr s' \<Rightarrow> (True, [], s'))"

definition forwarder :: "unit callee" where
  "forwarder caller target v payload s = (True, [], move target 8 v s)"

definition ledger :: "unit chain" where
  "ledger = \<lparr>balance = (\<lambda>a. if a = 2 then 100 else 0), world = ()\<rparr>"

definition funded :: "unit chain" where
  "funded = \<lparr>balance = (\<lambda>a. if a = 2 then 100 else if a = 1 then 7 else 0), world = ()\<rparr>"

section \<open>The client: BatchTransactionSDK\<close>

text \<open>
  The SDK is a JavaScript class with two fields: \<open>transactionList\<close>, an array of
  \<open>{target, value, data}\<close> objects, and \<open>approvalTransactionsList\<close>, an object that maps a
  token address to a \<open>BigNumber\<close>; \<open>Object.entries\<close> lists its keys in the order they were
  first stored, so it is an association list here. A transaction's \<open>value\<close> is documented
  as a number, and the repository also passes decimal strings and \<open>ethers\<close> BigNumber
  objects. \<open>Num q\<close> is a finite number, \<open>NaN\<close> and \<open>Inf positive\<close> the other numbers,
  \<open>Str s\<close> a string, and \<open>Big r n\<close> the BigNumber object with identity \<open>r\<close> and amount
  \<open>n\<close>. Finite numbers are taken exactly.
\<close>

datatype jsvalue = Num rat | NaN | Inf bool | Str string | Big nat int

text \<open>
  JavaScript's \<open>===\<close>: numbers and strings by content, with \<open>NaN\<close> equal to nothing, not
  even to itself; objects by identity.
\<close>

fun strict_eq :: "jsvalue \<Rightarrow> jsvalue \<Rightarrow> bool" where
  "strict_eq (Num a) (Num b) = (a = b)"
| "strict_eq (Inf p) (Inf q) = (p = q)"
| "strict_eq (Str a) (Str b) = (a = b)"
| "strict_eq (Big r a) (Big r' b) = (r = r')"
| "strict_eq _ _ = False"

record transaction =
  tx_target :: string
  tx_value :: jsvalue
  tx_data :: string

text \<open>
  The amounts the SDK adds up are \<open>bignumber.js\<close> values: a number, an infinity or
  \<open>NaN\<close>. \<open>bignum_plus\<close> is its \<open>plus\<close> and \<open>bignum_lt\<close> its \<open>lt\<close>.
\<close>

datatype bignum = Finite rat | Infinite bool | NotANumber

fun bignum_plus :: "bignum \<Rightarrow> bignum \<Rightarrow> bignum" where
  "bignum_plus (Finite a) (Finite b) = Finite (a + b)"
| "bignum_plus (Finite a) (Infinite q) = Infinite q"
| "bignum_plus (Infinite p) (Finite b) = Infinite p"
| "bignum_plus (Infinite p) (Infinite q) = (if p = q then Infinite p else NotANumber)"
| "bignum_plus NotANumber b = NotANumber"
| "bignum_plus a NotANumber = NotANumber"

fun bignum_lt :: "bignum \<Rightarrow> bignum \<Rightarrow> bool" where
  "bignum_lt (Finite a) (Finite b) = (a < b)"
| "bignum_lt (Finite a) (Infinite q) = q"
| "bignum_lt (Infinite p) (Finite b) = (\<not> p)"
| "bignum_lt (Infinite p) (Infinite q) = (\<not> p \<and> q)"
| "bignum_lt NotANumber b = False"
| "bignum_lt a NotANumber = False"

record sdk =
  transactionList :: "transaction list"
  approvalTransactionsList :: "(string \<times> bignum) list"

datatype js_error = Thrown string

text \<open>
  \<open>JSON.stringify\<close> writes a finite number as its digits, \<open>NaN\<close> and the infinities as
  \<open>null\<close>, a string between quotes, and a BigNumber through its \<open>toJSON\<close>, as
  \<open>{"type":"BigNumber","hex":\<dots>}\<close>: the amount without the identity. The text it gives
  for a transaction determines, and is determined by, the three rendered fields, so the
  fields stand for the text.
\<close>

datatype json = JNum rat | JNull | JStr string | JBig int

fun toJSON :: "jsvalue \<Rightarrow> json" where
  "toJSON (Num q) = JNum q"
| "toJSON NaN = JNull"
| "toJSON (Inf p) = JNull"
| "toJSON (Str s) = JStr s"
| "toJSON (Big r n) = JBig n"

definition stringify :: "transaction \<Rightarrow> string \<times> json \<times> string" where
  "stringify tx = (tx_target tx, toJSON (tx_value tx), tx_data tx)"

definition constructor :: sdk where
  "constructor = \<lparr>transactionList = [], approvalTransactionsList = []\<rparr>"

definition getTransactionList :: "sdk \<Rightarrow> transaction list" where
  "getTransactionList this = transactionList this"

definition addTransactionToList :: "string \<Rightarrow> jsvalue \<Rightarrow> string \<Rightarrow> sdk \<Rightarrow> sdk" where
  "addTransactionToList target val data this =
     (let transaction = \<lparr>tx_target = target, tx_value = val, tx_data = data\<rparr>
      in if \<not> list_ex (\<lambda>tx. stringify tx = stringify transaction) (transactionList this)
         then this\<lparr>transactionList := transactionList this @ [transaction]\<rparr>
         else this)"

definition removeTransactionFromList :: "string \<Rightarrow> jsvalue \<Rightarrow> string \<Rightarrow> sdk \<Rightarrow> sdk" where
  "removeTransactionFromList target val data this =
     this\<lparr>transactionList :=
       filter (\<lambda>tx. \<not> (tx_target tx = target \<and> strict_eq (tx_value tx) val \<and> tx_data tx = data))
         (transactionList this)\<rparr>"

text \<open>
  The values for which \<open>===\<close> and the JSON text agree: finite numbers and strings.
\<close>

fun compared_by_content :: "jsvalue \<Rightarrow> bool" where
  "compared_by_content (Num q) = True"
| "compared_by_content (Str s) = True"
| "compared_by_content other = False"

definition clearTransactionList :: "sdk \<Rightarrow> sdk" where
  "clearTransactionList this = this\<lparr>transactionList := []\<rparr>"

text \<open>
  \<open>tokenContract.interface.encodeFunctionData\<close> belongs to the \<open>ethers\<close> library: a
  parameter, which gives the call data or throws (on an amount that is no \<open>uint256\<close>, on
  a malformed address). The amount of an ERC20 operation is the string the caller
  passes; \<open>numeric\<close>, a parameter too, is how \<open>bignumber.js\<close> reads a string.
\<close>

datatype abi_value = Address string | Amount string

type_synonym encoder = "string \<Rightarrow> abi_value list \<Rightarrow> js_error + string"

text \<open>
  \<open>approvalTransactionsList\<close> starts as \<open>{}\<close>. Reading a key it does not hold gives
  \<open>undefined\<close>, unless the key names a property every object inherits from
  \<open>Object.prototype\<close>: then it gives that function or object, which counts as true and
  has no \<open>plus\<close>.
\<close>

definition inherited :: "string \<Rightarrow> bool" where
  "inherited key =
     (key \<in> set [''constructor'', ''hasOwnProperty'', ''isPrototypeOf'', ''propertyIsEnumerable'',
        ''toLocaleString'', ''toString'', ''valueOf'', ''__proto__'', ''__defineGetter__'',
        ''__defineSetter__'', ''__lookupGetter__'', ''__lookupSetter__''])"

text \<open>
  \<open>addERC20Transfer\<close> and \<open>addERC20Approve\<close> first add the amount to the token's entry of
  \<open>approvalTransactionsList\<close>, creating the entry at zero when reading it gives nothing,
  and only then encode the call and add it to the list. Nothing checks the amount before
  it is added; when the encoding throws, the entry has been changed already. On an
  inherited key the addition itself throws, a \<open>TypeError\<close>.
\<close>

definition addERC20Transfer :: "(string \<Rightarrow> bignum) \<Rightarrow> encoder \<Rightarrow> string \<Rightarrow> string \<Rightarrow> string \<Rightarrow> string \<Rightarrow> sdk \<Rightarrow> (js_error + unit) \<times> sdk" where
  "addERC20Transfer numeric encodeFunctionData signer tokenAddress target val this =
     (let approvals = (if map_of (approvalTransactionsList this) tokenAddress = None
                          \<and> \<not> inherited tokenAddress
                       then AList.update tokenAddress (Finite 0) (approvalTransactionsList this)
                       else approvalTransactionsList this)
      in case map_of approvals tokenAddress of
           None \<Rightarrow> (Inl (Thrown ''TypeError''), this\<lparr>approvalTransactionsList := approvals\<rparr>)
         | Some accumulated \<Rightarrow>
             let this' = this\<lparr>approvalTransactionsList :=
                   AList.update tokenAddress (bignum_plus accumulated (numeric val)) approvals\<rparr>
             in (case encodeFunctionData ''transferFrom'' [Address signer, Address target, Amount val] of
                   Inl e \<Rightarrow> (Inl e, this')
                 | Inr data \<Rightarrow> (Inr (), addTransactionToList tokenAddress (Num 0) data this')))"

definition addERC20Approve :: "(string \<Rightarrow> bignum) \<Rightarrow> encoder \<Rightarrow> string \<Rightarrow> string \<Rightarrow> string \<Rightarrow> sdk \<Rightarrow> (js_error + unit) \<times> sdk" where
  "addERC20Approve numeric encodeFunctionData tokenAddress target val this =
     (let approvals = (if map_of (approvalTransactionsList this) tokenAddress = None
                          \<and> \<not> inherited tokenAddress
                       then AList.update tokenAddress (Finite 0) (approvalTransactionsList this)
                       else approvalTransactionsList this)
      in case map_of approvals tokenAddress of
           None \<Rightarrow> (Inl (Thrown ''TypeError''), this\<lparr>approvalTransactionsList := approvals\<rparr>)
         | Some accumulated \<Rightarrow>
             let this' = this\<lparr>approvalTransactionsList :=
                   AList.update tokenAddress (bignum_plus accumulated (numeric val)) approvals\<rparr>
             in (case encodeFunctionData ''approve'' [Address target, Amount val] of
                   Inl e \<Rightarrow> (Inl e, this')
                 | Inr approveData \<Rightarrow> (Inr (), addTransactionToList tokenAddress (Num 0) approveData this')))"

subsection \<open>The network\<close>

text \<open>
  The SDK reaches the chain through \<open>ethers\<close> contract objects. What the node answers is
  not code of the repository: the network is a parameter, a state \<open>'n\<close> with the four
  requests \<open>executeBatchTransaction\<close> makes and the two gas estimates. As in \<open>ethers\<close>, a
  write method (\<open>approve\<close>, \<open>executeBatch\<close>) resolves with a transaction handle once the
  transaction has been submitted; that it has been mined is what \<open>wait()\<close> on the handle
  resolves with.
\<close>

record 'n network =
  rpc_allowance :: "string \<Rightarrow> 'n \<Rightarrow> (js_error + nat) \<times> 'n"
  rpc_approve :: "string \<Rightarrow> bignum \<Rightarrow> 'n \<Rightarrow> (js_error + nat) \<times> 'n"
  rpc_executeBatch :: "string list \<Rightarrow> string list \<Rightarrow> jsvalue list \<Rightarrow> bignum \<Rightarrow> 'n \<Rightarrow> (js_error + nat) \<times> 'n"
  rpc_wait :: "nat \<Rightarrow> 'n \<Rightarrow> (js_error + unit) \<times> 'n"
  rpc_estimate_approve :: "string \<Rightarrow> bignum \<Rightarrow> 'n \<Rightarrow> (js_error + nat) \<times> 'n"
  rpc_estimate_executeBatch :: "string list \<Rightarrow> string list \<Rightarrow> jsvalue list \<Rightarrow> bignum \<Rightarrow> 'n \<Rightarrow> (js_error + nat) \<times> 'n"

text \<open>
  The approval callbacks of \<open>executeBatchTransaction\<close> run concurrently, one per entry of
  \<open>approvalTransactionsList\<close>: each asks for the current allowance and, when it is below
  the accumulated amount, returns the promise of \<open>tokenContract.approve\<close>. The model
  takes the callbacks in the order of the entries, the queries first and then the
  approvals; a callback that throws does not stop the others. \<open>Promise.all\<close> rejects
  with a rejection of one of them, here the first in that order.
\<close>

fun query_allowances :: "'n network \<Rightarrow> (string \<times> bignum) list \<Rightarrow> 'n \<Rightarrow> (string \<times> bignum \<times> (js_error + nat)) list \<times> 'n" where
  "query_allowances net [] n = ([], n)"
| "query_allowances net ((tokenAddress, requiredApproval) # entries) n =
     (case rpc_allowance net tokenAddress n of
        (allowance, n1) \<Rightarrow>
          (case query_allowances net entries n1 of
             (answers, n2) \<Rightarrow> ((tokenAddress, requiredApproval, allowance) # answers, n2)))"

fun submit_approvals :: "'n network \<Rightarrow> (string \<times> bignum \<times> (js_error + nat)) list \<Rightarrow> 'n \<Rightarrow> (js_error + nat option) list \<times> 'n" where
  "submit_approvals net [] n = ([], n)"
| "submit_approvals net ((tokenAddress, requiredApproval, Inl e) # answers) n =
     (case submit_approvals net answers n of
        (settled, n1) \<Rightarrow> (Inl e # settled, n1))"
| "submit_approvals net ((tokenAddress, requiredApproval, Inr allowance) # answers) n =
     (if bignum_lt (Finite (of_nat allowance)) requiredApproval
      then (case rpc_approve net tokenAddress requiredApproval n of
              (Inl e, n1) \<Rightarrow>
                (case submit_approvals net answers n1 of
                   (settled, n2) \<Rightarrow> (Inl e # settled, n2))
            | (Inr tx, n1) \<Rightarrow>
                (case submit_approvals net answers n1 of
                   (settled, n2) \<Rightarrow> (Inr (Some tx) # settled, n2)))
      else (case submit_approvals net answers n of
              (settled, n1) \<Rightarrow> (Inr None # settled, n1)))"

fun estimate_approvals :: "'n network \<Rightarrow> (string \<times> bignum \<times> (js_error + nat)) list \<Rightarrow> 'n \<Rightarrow> (js_error + nat option) list \<times> 'n" where
  "estimate_approvals net [] n = ([], n)"
| "estimate_approvals net ((tokenAddress, requiredApproval, Inl e) # answers) n =
     (case estimate_approvals net answers n of
        (settled, n1) \<Rightarrow> (Inl e # settled, n1))"
| "estimate_approvals net ((tokenAddress, requiredApproval, Inr allowance) # answers) n =
     (if bignum_lt (Finite (of_nat allowance)) requiredApproval
      then (case rpc_estimate_approve net tokenAddress requiredApproval n of
              (Inl e, n1) \<Rightarrow>
                (case estimate_approvals net answers n1 of
                   (settled, n2) \<Rightarrow> (Inl e # settled, n2))
            | (Inr gas, n1) \<Rightarrow>
                (case estimate_approvals net answers n1 of
                   (settled, n2) \<Rightarrow> (Inr (Some gas) # settled, n2)))
      else (case estimate_approvals net answers n of
              (settled, n1) \<Rightarrow> (Inr None # settled, n1)))"

fun first_rejection :: "(js_error + 'a) list \<Rightarrow> js_error option" where
  "first_rejection [] = None"
| "first_rejection (Inl e # settled) = Some e"
| "first_rejection (Inr v # settled) = first_rejection settled"

text \<open>
  \<open>values.reduce((acc, value) => acc.plus(value.toString()), new BigNumber(0))\<close>: the sum
  of the listed values, each read from its text.
\<close>

fun reading :: "(string \<Rightarrow> bignum) \<Rightarrow> jsvalue \<Rightarrow> bignum" where
  "reading numeric (Num q) = Finite q"
| "reading numeric NaN = NotANumber"
| "reading numeric (Inf p) = Infinite p"
| "reading numeric (Str s) = numeric s"
| "reading numeric (Big r n) = Finite (of_int n)"

fun totalValue :: "(string \<Rightarrow> bignum) \<Rightarrow> jsvalue list \<Rightarrow> bignum \<Rightarrow> bignum" where
  "totalValue numeric [] acc = acc"
| "totalValue numeric (v # vs) acc = totalValue numeric vs (bignum_plus acc (reading numeric v))"

definition executeBatchTransaction :: "'n network \<Rightarrow> (string \<Rightarrow> bignum) \<Rightarrow> sdk \<Rightarrow> 'n \<Rightarrow> ((js_error + nat) \<times> sdk) \<times> 'n" where
  "executeBatchTransaction net numeric this n =
     (if length (transactionList this) = 0
      then ((Inl (Thrown ''Transaction list is empty''), this), n)
      else
        (case query_allowances net (approvalTransactionsList this) n of
           (answers, n1) \<Rightarrow>
             (case submit_approvals net answers n1 of
                (settled, n2) \<Rightarrow>
                  (case first_rejection settled of
                     Some e \<Rightarrow> ((Inl e, this), n2)
                   | None \<Rightarrow>
                       let targets = map tx_target (transactionList this);
                           vals = map tx_value (transactionList this);
                           data = map tx_data (transactionList this);
                           total = totalValue numeric vals (Finite 0)
                       in (case rpc_executeBatch net targets data vals total n2 of
                             (Inl e, n3) \<Rightarrow> ((Inl e, this), n3)
                           | (Inr tx, n3) \<Rightarrow>
                               (case rpc_wait net tx n3 of
                                  (Inl e, n4) \<Rightarrow> ((Inl e, this), n4)
                                | (Inr receipt, n4) \<Rightarrow> ((Inr tx, clearTransactionList this), n4)))))))"

definition estimateGasForBatchTransaction :: "'n network \<Rightarrow> (string \<Rightarrow> bignum) \<Rightarrow> sdk \<Rightarrow> 'n \<Rightarrow> ((js_error + nat) \<times> sdk) \<times> 'n" where
  "estimateGasForBatchTransaction net numeric this n =
     (if length (transactionList this) = 0
      then ((Inl (Thrown ''Transaction list is empty''), this), n)
      else
        (case query_allowances net (approvalTransactionsList this) n of
           (answers, n1) \<Rightarrow>
             (case estimate_approvals net answers n1 of
                (settled, n2) \<Rightarrow>
                  (case first_rejection settled of
                     Some e \<Rightarrow> ((Inl e, this), n2)
                   | None \<Rightarrow>
                       let targets = map tx_target (transactionList this);
                           vals = map tx_value (transactionList this);
                           data = map tx_data (transactionList this);
                           total = totalValue numeric vals (Finite 0)
                       in (case rpc_estimate_executeBatch net targets data vals total n2 of
                             (Inl e, n3) \<Rightarrow> ((Inl e, this), n3)
                           | (Inr estimatedGas, n3) \<Rightarrow> ((Inr estimatedGas, this), n3))))))"

subsection \<open>Sessions\<close>

text \<open>
  The operations of the class that a caller can invoke on one SDK instance, and the
  state they leave. A getter changes nothing.
\<close>

datatype operation =
    AddTransactionToList string jsvalue string
  | AddERC20Transfer string string string
  | AddERC20Approve string string string
  | RemoveTransactionFromList string jsvalue string
  | ClearTransactionList
  | ExecuteBatchTransaction
  | EstimateGasForBatchTransaction
  | GetTransactionList

fun perform :: "'n network \<Rightarrow> encoder \<Rightarrow> (string \<Rightarrow> bignum) \<Rightarrow> string \<Rightarrow> operation \<Rightarrow> sdk \<times> 'n \<Rightarrow> sdk \<times> 'n" where
  "perform net enc numeric signer (AddTransactionToList target val data) (this, n) =
     (addTransactionToList target val data this, n)"
| "perform net enc numeric signer (AddERC20Transfer tokenAddress target val) (this, n) =
     (snd (addERC20Transfer numeric enc signer tokenAddress target val this), n)"
| "perform net enc numeric signer (AddERC20Approve tokenAddress target val) (this, n) =
     (snd (addERC20Approve numeric enc tokenAddress target val this), n)"
| "perform net enc numeric signer (RemoveTransactionFromList target val data) (this, n) =
     (removeTransactionFromList target val data this, n)"
| "perform net enc numeric signer ClearTransactionList (this, n) = (clearTransactionList this, n)"
| "perform net enc numeric signer ExecuteBatchTransaction (this, n) =
     (case executeBatchTransaction net numeric this n of ((r, this'), n') \<Rightarrow> (this', n'))"
| "perform net enc numeric signer EstimateGasForBatchTransaction (this, n) =
     (case estimateGasForBatchTransaction net numeric this n of ((r, this'), n') \<Rightarrow> (this', n'))"
| "perform net enc numeric signer GetTransactionList (this, n) = (this, n)"

fun session :: "'n network \<Rightarrow> encoder \<Rightarrow> (string \<Rightarrow> bignum) \<Rightarrow> string \<Rightarrow> operation list \<Rightarrow> sdk \<times> 'n \<Rightarrow> sdk \<times> 'n" where
  "session net enc numeric signer [] st = st"
| "session net enc numeric signer (op # ops) st =
     session net enc numeric signer ops (perform net enc numeric signer op st)"

text \<open>The amount accumulated for a token: zero while the token has no entry.\<close>

definition accumulated :: "sdk \<Rightarrow> string \<Rightarrow> bignum" where
  "accumulated this tokenAddress =
     (case map_of (approvalTransactionsList this) tokenAddress of None \<Rightarrow> Finite 0 | Some a \<Rightarrow> a)"

text \<open>
  An operation adds a non-negative amount when it is no ERC20 operation or the amount of
  its ERC20 operation reads as a number that is not negative.
\<close>

fun adds_no_negative :: "(string \<Rightarrow> bignum) \<Rightarrow> operation \<Rightarrow> bool" where
  "adds_no_negative numeric (AddERC20Transfer tokenAddress target val) =
     (case numeric val of Finite q \<Rightarrow> 0 \<le> q | Infinite p \<Rightarrow> False | NotANumber \<Rightarrow> False)"
| "adds_no_negative numeric (AddERC20Approve tokenAddress target val) =
     (case numeric val of Finite q \<Rightarrow> 0 \<le> q | Infinite p \<Rightarrow> False | NotANumber \<Rightarrow> False)"
| "adds_no_negative numeric other = True"

subsection \<open>Networks of the examples\<close>

text \<open>
  The state of \<open>recording\<close> is the list of the requests it has received, in order. Every
  token has the on-chain allowance \<open>onchain\<close>; every submission is accepted and gets the
  number of requests before it as its handle; waiting for a receipt succeeds when
  \<open>mined\<close> holds and throws otherwise. \<open>approval_refusing\<close> is the same network, but it
  refuses every approval. \<open>abi\<close> encodes the amount \<open>1000\<close> and throws on every other;
  \<open>decimal\<close> reads \<open>1000\<close> and \<open>-1000\<close> and takes every other string for \<open>NaN\<close>.
  \<open>two_pending\<close> is the SDK after an ERC20 transfer of 1000 and a payment of 5 wei have
  been added to a new instance.
\<close>

datatype request =
    Allowance string
  | Approve string bignum
  | ExecuteBatch "string list" "string list" "jsvalue list" bignum
  | Wait nat
  | EstimateApprove string bignum
  | EstimateExecuteBatch "string list" "string list" "jsvalue list" bignum

definition recording :: "nat \<Rightarrow> bool \<Rightarrow> (request list) network" where
  "recording onchain mined =
     \<lparr>rpc_allowance = (\<lambda>tokenAddress n. (Inr onchain, n @ [Allowance tokenAddress])),
      rpc_approve = (\<lambda>tokenAddress amount n. (Inr (length n), n @ [Approve tokenAddress amount])),
      rpc_executeBatch = (\<lambda>targets data vals total n.
         (Inr (length n), n @ [ExecuteBatch targets data vals total])),
      rpc_wait = (\<lambda>tx n.
         (if mined then Inr () else Inl (Thrown ''transaction failed''), n @ [Wait tx])),
      rpc_estimate_approve = (\<lambda>tokenAddress amount n.
         (Inr 46000, n @ [EstimateApprove tokenAddress amount])),
      rpc_estimate_executeBatch = (\<lambda>targets data vals total n.
         (Inr 90000, n @ [EstimateExecuteBatch targets data vals total]))\<rparr>"

definition approval_refusing :: "(request list) network" where
  "approval_refusing =
     (recording 0 True)\<lparr>rpc_approve :=
        (\<lambda>tokenAddress amount n. (Inl (Thrown ''approval refused''), n @ [Approve tokenAddress amount]))\<rparr>"

definition two_pending :: sdk where
  "two_pending =
     \<lparr>transactionList =
        [\<lparr>tx_target = ''0xToken'', tx_value = Num 0, tx_data = ''0x23b872dd''\<rparr>,
         \<lparr>tx_target = ''0xA'', tx_value = Num 5, tx_data = ''0x''\<rparr>],
      approvalTransactionsList = [(''0xToken'', Finite 1000)]\<rparr>"

definition abi :: encoder where
  "abi name args =
     (if Amount ''1000'' \<notin> set args then Inl (Thrown ''invalid BigNumber string'')
      else if name = ''approve'' then Inr ''0x095ea7b3''
      else Inr ''0x23b872dd'')"

definition decimal :: "string \<Rightarrow> bignum" where
  "decimal s =
     (if s = ''1000'' then Finite 1000
      else if s = ''-1000'' then Finite (- 1000)
      else NotANumber)"

section \<open>What the loop computes\<close>

text \<open>
  From index \<open>i\<close>, in the state sub-call \<open>i\<close> runs in, the loop returns exactly when every
  remaining sub-call succeeds; it then has filled the two arrays from \<open>i\<close> on, emitted one
  event per sub-call, and left the state after the last one. Otherwise it reverts.
\<close>

lemma loop_char:
  "i \<le> length targets \<Longrightarrow> length success = length targets \<Longrightarrow> length results = length targets \<Longrightarrow>
   batch_loop env this targets data amount i success results evs (sub_state env this targets data amount s0 i) =
     (if \<forall>j. i \<le> j \<and> j < length targets \<longrightarrow> sub_ok env this targets data amount s0 j
      then Inr (take i success @ map (sub_ok env this targets data amount s0) [i..<length targets],
                take i results @ map (sub_ret env this targets data amount s0) [i..<length targets],
                evs @ map (\<lambda>j. OperationExecuted (targets ! j) (sub_ok env this targets data amount s0 j) (sub_ret env this targets data amount s0 j)) [i..<length targets],
                sub_state env this targets data amount s0 (length targets))
      else Inl (Error ''One of the transactions failed. Reverting all transactions.''))"
proof (induction "length targets - i" arbitrary: i success results evs)
  case 0
  then have "i = length targets" by simp
  then show ?case using 0 by (simp add: batch_loop.simps)
next
  case (Suc n)
  then have lt: "i < length targets" by simp
  let ?s = "sub_state env this targets data amount s0 i"
  obtain ok ret s' where c: "call env this (targets ! i) (amount ! i) (data ! i) ?s = ((ok, ret), s')"
    by (metis surj_pair)
  have ok: "ok = sub_ok env this targets data amount s0 i" and ret: "ret = sub_ret env this targets data amount s0 i"
    and s': "s' = sub_state env this targets data amount s0 (Suc i)"
    using c by (simp_all add: sub_ok_def sub_ret_def)
  show ?case
  proof (cases ok)
    case False
    then have "\<not> (\<forall>j. i \<le> j \<and> j < length targets \<longrightarrow> sub_ok env this targets data amount s0 j)"
      using ok lt by auto
    then show ?thesis using False c lt by (subst batch_loop.simps) simp
  next
    case True
    have n: "n = length targets - Suc i" using Suc.hyps by simp
    have IH: "batch_loop env this targets data amount (Suc i) (success[i := ok]) (results[i := ret]) (evs @ [OperationExecuted (targets ! i) ok ret]) (sub_state env this targets data amount s0 (Suc i)) = 
     (if \<forall>j. Suc i \<le> j \<and> j < length targets \<longrightarrow> sub_ok env this targets data amount s0 j
      then Inr (take (Suc i) (success[i := ok]) @ map (sub_ok env this targets data amount s0) [Suc i..<length targets],
                take (Suc i) (results[i := ret]) @ map (sub_ret env this targets data amount s0) [Suc i..<length targets],
                (evs @ [OperationExecuted (targets ! i) ok ret]) @ map (\<lambda>j. OperationExecuted (targets ! j) (sub_ok env this targets data amount s0 j) (sub_ret env this targets data amount s0 j)) [Suc i..<length targets],
                sub_state env this targets data amount s0 (length targets))
      else Inl (Error ''One of the transactions failed. Reverting all transactions.''))"
      using Suc.hyps(1)[OF n, of "success[i := ok]" "results[i := ret]"] lt Suc.prems by simp
    have all: "(\<forall>j. i \<le> j \<and> j < length targets \<longrightarrow> sub_ok env this targets data amount s0 j) = (\<forall>j. Suc i \<le> j \<and> j < length targets \<longrightarrow> sub_ok env this targets data amount s0 j)"
      using True ok by (metis Suc_leI le_neq_implies_less Suc_leD)
    have t1: "\<And>x. take (Suc i) (success[i := x]) = take i success @ [x]"
      using lt Suc.prems by (simp add: take_Suc_conv_app_nth)
    have t2: "\<And>x. take (Suc i) (results[i := x]) = take i results @ [x]"
      using lt Suc.prems by (simp add: take_Suc_conv_app_nth)
    have up: "[i..<length targets] = i # [Suc i..<length targets]"
      using lt by (simp add: upt_conv_Cons)
    have step: "batch_loop env this targets data amount i success results evs ?s =
        batch_loop env this targets data amount (Suc i) (success[i := ok]) (results[i := ret])
          (evs @ [OperationExecuted (targets ! i) ok ret]) s'"
      using lt c True by (subst batch_loop.simps) simp
    have IH': "batch_loop env this targets data amount (Suc i) (success[i := ok]) (results[i := ret]) (evs @ [OperationExecuted (targets ! i) ok ret]) s' = 
     (if \<forall>j. Suc i \<le> j \<and> j < length targets \<longrightarrow> sub_ok env this targets data amount s0 j
      then Inr (take (Suc i) (success[i := ok]) @ map (sub_ok env this targets data amount s0) [Suc i..<length targets],
                take (Suc i) (results[i := ret]) @ map (sub_ret env this targets data amount s0) [Suc i..<length targets],
                (evs @ [OperationExecuted (targets ! i) ok ret]) @ map (\<lambda>j. OperationExecuted (targets ! j) (sub_ok env this targets data amount s0 j) (sub_ret env this targets data amount s0 j)) [Suc i..<length targets],
                sub_state env this targets data amount s0 (length targets))
      else Inl (Error ''One of the transactions failed. Reverting all transactions.''))"
      unfolding s' by (rule IH)
    show ?thesis
      unfolding step IH'
      by (simp add: all t1 t2 up ok ret)
  qed
qed

lemma loop_start:
  "batch_loop env this targets data amount 0 (replicate (length targets) False) (replicate (length targets) []) [] s =
     (if \<forall>j<length targets. sub_ok env this targets data amount s j
      then Inr (map (sub_ok env this targets data amount s) [0..<length targets],
                map (sub_ret env this targets data amount s) [0..<length targets],
                map (\<lambda>j. OperationExecuted (targets ! j) (sub_ok env this targets data amount s j) (sub_ret env this targets data amount s j)) [0..<length targets],
                sub_state env this targets data amount s (length targets))
      else Inl (Error ''One of the transactions failed. Reverting all transactions.''))"
  using loop_char [of 0 targets "replicate (length targets) False" "replicate (length targets) []" env this data amount "[]" s]
  by simp

lemma entry_balance: "msg_value \<le> balance (move msg_sender this msg_value s) this"
  by (simp add: move_def Let_def)

lemma first_failure_aborts:
  assumes "i < length targets" "\<not> sub_ok env this targets data amount s i"
  shows "batch_loop env this targets data amount 0 (replicate (length targets) False) (replicate (length targets) []) [] s =
     Inl (Error ''One of the transactions failed. Reverting all transactions.'')"
  using assms unfolding loop_start by auto

lemma executeBatch_aborts:
  assumes "length data = length targets" and "length amount = length targets"
    and "i < length targets"
    and "\<not> sub_ok env this targets data amount (move msg_sender this msg_value s) i"
  shows "executeBatch env accepts this msg_sender msg_value targets data amount (move msg_sender this msg_value s) =
      Inl (Error ''One of the transactions failed. Reverting all transactions.'')"
  using assms(1,2) entry_balance [of msg_value msg_sender this s]
    first_failure_aborts [OF assms(3) assms(4)]
  by (simp add: executeBatch_def Let_def not_less [symmetric])

lemma picky_4: "\<not> sub_ok picky 1 [4] [[]] [0] (move 2 1 0 ledger) 0"
    "sub_ret picky 1 [4] [[]] [0] (move 2 1 0 ledger) 0 = [0xde, 0xad]"
  by (simp_all add: sub_ok_def sub_ret_def call_def move_def picky_def ledger_def)

lemma picky_35: "sub_ok picky 1 [3, 5] [[], []] [0, 0] (move 2 1 0 ledger) 0"
  "\<not> sub_ok picky 1 [3, 5] [[], []] [0, 0] (move 2 1 0 ledger) (Suc 0)"
  "sub_ret picky 1 [3, 5] [[], []] [0, 0] (move 2 1 0 ledger) (Suc 0) = [0xbe, 0xef]"
  by (simp_all add: sub_ok_def sub_ret_def call_def move_def picky_def ledger_def)

text \<open>
  When the body returns, the arrays were equally long, every sub-call succeeded, and the
  returned arrays and the events are those of the sub-calls, in input order.
\<close>

lemma executeBatch_returns:
  assumes "executeBatch env accepts this msg_sender msg_value targets data amount s1 = Inr (success, results, evs, s2)"
  shows "length data = length targets \<and> length amount = length targets \<and>
    (\<forall>j<length targets. sub_ok env this targets data amount s1 j) \<and>
    success = map (sub_ok env this targets data amount s1) [0..<length targets] \<and>
    results = map (sub_ret env this targets data amount s1) [0..<length targets] \<and>
    evs = map (\<lambda>j. OperationExecuted (targets ! j) (sub_ok env this targets data amount s1 j)
                 (sub_ret env this targets data amount s1 j)) [0..<length targets]"
  using assms unfolding executeBatch_def loop_start Let_def
  by (auto split: if_splits option.splits)

text \<open>
  A sub-call that succeeds was paid from a balance that held its amount. Where the
  executor's balance is spared and the executor is no target, each successful sub-call
  takes exactly its amount from it; a spared account that is neither the executor nor a
  target keeps its balance.
\<close>

lemma sub_ok_funded:
  assumes "sub_ok env this targets data amount s k"
  shows "amount ! k \<le> balance (sub_state env this targets data amount s k) this"
  using assms by (auto simp add: sub_ok_def call_def split: if_splits)

lemma spared_executor_balance:
  assumes "spared env this targets data amount s this" and "this \<notin> set targets"
  shows "k \<le> length targets \<Longrightarrow> k \<le> length amount \<Longrightarrow>
     \<forall>j<k. sub_ok env this targets data amount s j \<Longrightarrow>
     balance (sub_state env this targets data amount s k) this + sum_list (take k amount) = balance s this"
proof (induction k)
  case 0
  then show ?case by simp
next
  case (Suc k)
  have ok: "sub_ok env this targets data amount s k" using Suc.prems by simp
  have lt: "k < length targets" using Suc.prems(1) by simp
  have ne: "targets ! k \<noteq> this" using assms(2) lt by (metis nth_mem)
  have IH: "balance (sub_state env this targets data amount s k) this + sum_list (take k amount) = balance s this"
    using Suc by simp
  have t: "take (Suc k) amount = take k amount @ [amount ! k]"
    using Suc.prems(2) by (simp add: take_Suc_conv_app_nth)
  have st: "balance (sub_state env this targets data amount s (Suc k)) this =
      balance (move this (targets ! k) (amount ! k) (sub_state env this targets data amount s k)) this"
    using assms(1) lt unfolding spared_def by blast
  have "balance (sub_state env this targets data amount s (Suc k)) this =
      balance (sub_state env this targets data amount s k) this - amount ! k"
    unfolding st using ne by (simp add: move_def Let_def)
  then show ?case
    using sub_ok_funded [OF ok] IH by (simp add: t)
qed

lemma spared_other_balance:
  assumes "spared env this targets data amount s a" and "a \<notin> set targets" and "a \<noteq> this"
  shows "k \<le> length targets \<Longrightarrow>
     balance (sub_state env this targets data amount s k) a = balance s a"
proof (induction k)
  case 0
  then show ?case by simp
next
  case (Suc k)
  have lt: "k < length targets" using Suc.prems(1) by simp
  have ne: "targets ! k \<noteq> a" using assms(2) lt by (metis nth_mem)
  have IH: "balance (sub_state env this targets data amount s k) a = balance s a"
    using Suc by simp
  have st: "balance (sub_state env this targets data amount s (Suc k)) a =
      balance (move this (targets ! k) (amount ! k) (sub_state env this targets data amount s k)) a"
    using assms(1) lt unfolding spared_def by blast
  show ?case
    unfolding st using ne IH assms(3) by (simp add: move_def Let_def)
qed

lemma executeBatch_closing:
  assumes "length data = length targets" and "length amount = length targets"
    and "\<forall>j<length targets. sub_ok env this targets data amount s1 j"
    and "msg_value \<le> balance s1 this"
  shows "executeBatch env accepts this msg_sender msg_value targets data amount s1 =
    (let initialBalance = balance s1 this - msg_value;
         finalBalance = balance (sub_state env this targets data amount s1 (length targets)) this;
         s2 = sub_state env this targets data amount s1 (length targets);
         success = map (sub_ok env this targets data amount s1) [0..<length targets];
         results = map (sub_ret env this targets data amount s1) [0..<length targets];
         evs = map (\<lambda>j. OperationExecuted (targets ! j) (sub_ok env this targets data amount s1 j)
                 (sub_ret env this targets data amount s1 j)) [0..<length targets]
     in if initialBalance > finalBalance
        then Inl (Error ''ETH exceeded: Insufficient funds for transactions'')
        else if finalBalance - initialBalance > 0
        then (case transfer accepts this msg_sender (finalBalance - initialBalance) s2 of
                None \<Rightarrow> Inl TransferFailed
              | Some s3 \<Rightarrow> Inr (success, results, evs, s3))
        else Inr (success, results, evs, s2))"
  using assms unfolding executeBatch_def loop_start Let_def
  by (simp add: not_less [symmetric])

text \<open>The facts used to evaluate the examples.\<close>

lemmas run_defs = executeBatch_call_def executeBatch_def batch_loop.simps sub_ok_def sub_ret_def
  call_def move_def transfer_def receive_def withdraw_def withdraw_call_def Let_def

lemma forwarder_36:
  "sub_ok forwarder 1 [3, 6] [[], []] [5, 2] (move 2 1 10 ledger) 0"
  "sub_ok forwarder 1 [3, 6] [[], []] [5, 2] (move 2 1 10 ledger) (Suc 0)"
  "spared forwarder 1 [3, 6] [[], []] [5, 2] (move 2 1 10 ledger) 1"
  "spared forwarder 1 [3, 6] [[], []] [5, 2] (move 2 1 10 ledger) 2"
  by (simp_all add: spared_def sub_ok_def call_def move_def forwarder_def ledger_def All_less_Suc)

lemma plain_36: "sub_ok plain 1 [3, 6] [[], []] [5, 2] (move 2 1 10 ledger) 0"
  "sub_ok plain 1 [3, 6] [[], []] [5, 2] (move 2 1 10 ledger) (Suc 0)"
  by (simp_all add: sub_ok_def call_def move_def plain_def ledger_def)

lemma plain_3_funded: "sub_ok plain 1 [3] [[]] [5] (move 2 1 0 funded) 0"
  "balance (move 2 1 0 funded) 1 - 0 = 7"
  "balance (sub_state plain 1 [3] [[]] [5] (move 2 1 0 funded) (Suc 0)) 1 = 2"
  by (simp_all add: sub_ok_def call_def move_def plain_def funded_def)

section \<open>Claims about executeBatch\<close>

text \<open>
  Claim C1. For every batch submitted to \<open>executeBatch\<close>, if a sub-call at index \<open>i\<close>
  fails (the sub-calls before it having succeeded), the whole batch is aborted and rolled
  back: the call reverts, it emits no event, and the chain state after it is the state
  in which it was made; nothing the earlier sub-calls did is kept.
\<close>

theorem subcall_failure_rolls_back:
  assumes "length data = length targets" and "length amount = length targets"
    and "i < length targets"
    and "\<forall>j<i. sub_ok env this targets data amount (move msg_sender this msg_value s) j"
    and "\<not> sub_ok env this targets data amount (move msg_sender this msg_value s) i"
  shows "executeBatch_call env accepts this msg_sender msg_value targets data amount s =
           \<lparr>outcome = Inl (Error ''One of the transactions failed. Reverting all transactions.''),
            emitted = [], post = s\<rparr>"
proof -
  have "executeBatch env accepts this msg_sender msg_value targets data amount (move msg_sender this msg_value s) =
      Inl (Error ''One of the transactions failed. Reverting all transactions.'')"
    using assms(1,2) entry_balance [of msg_value msg_sender this s]
      first_failure_aborts [OF assms(3) assms(5)]
    by (simp add: executeBatch_def Let_def not_less [symmetric])
  then show ?thesis by (simp add: executeBatch_call_def)
qed

text \<open>
  The batch pays 5 wei to account 3 and then calls the reverting contract 4: the first
  sub-call succeeds and account 3 holds the 5 wei when the second one runs, yet after
  the call the state is \<open>ledger\<close> again.
\<close>

theorem subcall_failure_rolls_back_witness:
  "sub_ok picky 1 [3, 4] [[], []] [5, 0] (move 2 1 5 ledger) 0 \<and>
   \<not> sub_ok picky 1 [3, 4] [[], []] [5, 0] (move 2 1 5 ledger) (Suc 0) \<and>
   balance (sub_state picky 1 [3, 4] [[], []] [5, 0] (move 2 1 5 ledger) (Suc 0)) 3 = 5 \<and>
   balance ledger 3 = 0 \<and>
   executeBatch_call picky willing 1 2 5 [3, 4] [[], []] [5, 0] ledger =
     \<lparr>outcome = Inl (Error ''One of the transactions failed. Reverting all transactions.''),
      emitted = [], post = ledger\<rparr>"
proof -
  have a: "sub_ok picky 1 [3, 4] [[], []] [5, 0] (move 2 1 5 ledger) 0"
    by (simp add: sub_ok_def call_def move_def picky_def ledger_def)
  have b: "\<not> sub_ok picky 1 [3, 4] [[], []] [5, 0] (move 2 1 5 ledger) (Suc 0)"
    by (simp add: sub_ok_def call_def move_def picky_def ledger_def)
  have c: "balance (sub_state picky 1 [3, 4] [[], []] [5, 0] (move 2 1 5 ledger) (Suc 0)) 3 = 5"
    by (simp add: call_def move_def picky_def ledger_def)
  have d: "balance ledger 3 = 0"
    by (simp add: ledger_def)
  have e: "\<forall>j<Suc 0. sub_ok picky 1 [3, 4] [[], []] [5, 0] (move 2 1 5 ledger) j"
    using a by simp
  show ?thesis
    using a b c d
      subcall_failure_rolls_back [of "[[], []]" "[3, 4]" "[5, 0]" "Suc 0" picky 1 2 5 ledger willing,
        OF _ _ _ e b]
    by simp
qed

text \<open>
  Claim C5. For every input to \<open>executeBatch\<close> in which \<open>targets\<close>, \<open>data\<close> and \<open>amount\<close>
  are not all of the same length, the call reverts with the message of the two
  \<open>require\<close>s, \<open>Mismatched inputs\<close> (the spec's MalformedRequest); whatever the code behind
  the targets is, none of it runs, no event is emitted and the state does not change.
\<close>

theorem mismatched_inputs_rejected:
  assumes "length targets \<noteq> length data \<or> length targets \<noteq> length amount"
  shows "executeBatch_call env accepts this msg_sender msg_value targets data amount s =
           \<lparr>outcome = Inl (Error ''Mismatched inputs''), emitted = [], post = s\<rparr>"
  using assms by (auto simp add: executeBatch_call_def executeBatch_def)

theorem mismatched_inputs_rejected_witness:
  "length [3 :: address, 4] \<noteq> length [[] :: bytes] \<and>
   executeBatch_call thief willing 1 2 5 [3, 4] [[]] [5, 0] ledger =
     \<lparr>outcome = Inl (Error ''Mismatched inputs''), emitted = [], post = ledger\<rparr>"
  using mismatched_inputs_rejected [of "[3, 4]" "[[]]" "[5, 0]" thief willing 1 2 5 ledger]
  by simp

text \<open>
  Claim C3, as the code has it. When a sub-call of \<open>executeBatch\<close> fails, the error raised
  to the top level is the fixed message
  \<open>One of the transactions failed. Reverting all transactions.\<close>, whatever the index of
  the failing sub-call and whatever its revert data: it carries neither.
\<close>

theorem subcall_failure_error_is_fixed:
  assumes "length data = length targets" and "length amount = length targets"
    and "i < length targets"
    and "\<forall>j<i. sub_ok env this targets data amount (move msg_sender this msg_value s) j"
    and "\<not> sub_ok env this targets data amount (move msg_sender this msg_value s) i"
    and "sub_ret env this targets data amount (move msg_sender this msg_value s) i = revert_data"
  shows "outcome (executeBatch_call env accepts this msg_sender msg_value targets data amount s) =
           Inl (Error ''One of the transactions failed. Reverting all transactions.'')"
  using executeBatch_aborts [OF assms(1,2,3,5)] by (simp add: executeBatch_call_def)

theorem subcall_failure_error_is_fixed_witness:
  "sub_ok picky 1 [3, 5] [[], []] [0, 0] (move 2 1 0 ledger) 0 \<and>
   \<not> sub_ok picky 1 [3, 5] [[], []] [0, 0] (move 2 1 0 ledger) (Suc 0) \<and>
   sub_ret picky 1 [3, 5] [[], []] [0, 0] (move 2 1 0 ledger) (Suc 0) = [0xbe, 0xef] \<and>
   outcome (executeBatch_call picky willing 1 2 0 [3, 5] [[], []] [0, 0] ledger) =
     Inl (Error ''One of the transactions failed. Reverting all transactions.'')"
proof -
  have e: "\<forall>j<Suc 0. sub_ok picky 1 [3, 5] [[], []] [0, 0] (move 2 1 0 ledger) j"
    using picky_35(1) by simp
  show ?thesis
    using picky_35
      subcall_failure_error_is_fixed [of "[[], []]" "[3, 5]" "[0, 0]" "Suc 0" picky 1 2 0 ledger "[0xbe, 0xef]" willing,
        OF _ _ _ e picky_35(2) picky_35(3)]
    by simp
qed

text \<open>
  Claim C3 as the spec states it, an error that carries the index of the failing
  sub-call and its revert data, does not hold: a batch whose sub-call 0 reverts with
  \<open>de ad\<close> and a batch whose sub-call 1 reverts with \<open>be ef\<close> raise the same error.
\<close>

theorem subcall_failure_error_counterexample:
  "\<not> sub_ok picky 1 [4] [[]] [0] (move 2 1 0 ledger) 0 \<and>
   sub_ret picky 1 [4] [[]] [0] (move 2 1 0 ledger) 0 = [0xde, 0xad] \<and>
   sub_ok picky 1 [3, 5] [[], []] [0, 0] (move 2 1 0 ledger) 0 \<and>
   \<not> sub_ok picky 1 [3, 5] [[], []] [0, 0] (move 2 1 0 ledger) (Suc 0) \<and>
   sub_ret picky 1 [3, 5] [[], []] [0, 0] (move 2 1 0 ledger) (Suc 0) = [0xbe, 0xef] \<and>
   outcome (executeBatch_call picky willing 1 2 0 [4] [[]] [0] ledger) =
   outcome (executeBatch_call picky willing 1 2 0 [3, 5] [[], []] [0, 0] ledger)"
proof -
  have a: "executeBatch picky willing 1 2 0 [4] [[]] [0] (move 2 1 0 ledger) =
      Inl (Error ''One of the transactions failed. Reverting all transactions.'')"
    using executeBatch_aborts [of "[[]]" "[4]" "[0]" 0 picky 1 2 0 ledger willing] picky_4(1) by simp
  have b: "executeBatch picky willing 1 2 0 [3, 5] [[], []] [0, 0] (move 2 1 0 ledger) =
      Inl (Error ''One of the transactions failed. Reverting all transactions.'')"
    using executeBatch_aborts [of "[[], []]" "[3, 5]" "[0, 0]" "Suc 0" picky 1 2 0 ledger willing] picky_35(2) by simp
  show ?thesis
    using picky_4 picky_35 by (simp add: executeBatch_call_def a b)
qed

text \<open>
  Claim C6, as the code has it. For every batch that \<open>executeBatch\<close> returns from (which
  needs more than every sub-call succeeding: the closing balance check and the refund
  must pass as well), the batch was well formed, every sub-call succeeded, the two
  returned arrays have one entry per input triple, in input order (flag \<open>true\<close> and the
  bytes that sub-call returned), and the call emitted one \<open>OperationExecuted\<close> event per
  sub-call, in execution order, with the target, the flag and the returned bytes.
\<close>

theorem returned_outcomes_follow_input:
  assumes "outcome (executeBatch_call env accepts this msg_sender msg_value targets data amount s) =
             Inr (success, results)"
  shows "length data = length targets \<and> length amount = length targets \<and>
    length success = length targets \<and> length results = length targets \<and>
    (\<forall>j<length targets.
        sub_ok env this targets data amount (move msg_sender this msg_value s) j \<and>
        success ! j = True \<and>
        results ! j = sub_ret env this targets data amount (move msg_sender this msg_value s) j) \<and>
    emitted (executeBatch_call env accepts this msg_sender msg_value targets data amount s) =
      map (\<lambda>j. OperationExecuted (targets ! j) (success ! j) (results ! j)) [0..<length targets]"
proof -
  obtain evs s2 where r: "executeBatch env accepts this msg_sender msg_value targets data amount
      (move msg_sender this msg_value s) = Inr (success, results, evs, s2)"
    and e: "emitted (executeBatch_call env accepts this msg_sender msg_value targets data amount s) = evs"
    using assms by (auto simp add: executeBatch_call_def split: sum.splits)
  note f = executeBatch_returns [OF r]
  have s: "success = map (sub_ok env this targets data amount (move msg_sender this msg_value s)) [0..<length targets]"
    and t: "results = map (sub_ret env this targets data amount (move msg_sender this msg_value s)) [0..<length targets]"
    using f by simp_all
  have "evs = map (\<lambda>j. OperationExecuted (targets ! j) (success ! j) (results ! j)) [0..<length targets]"
    using f by (simp add: s t)
  then show ?thesis using f e by (simp add: s t)
qed

theorem returned_outcomes_follow_input_witness:
  "outcome (executeBatch_call plain willing 1 2 7 [3, 6] [[], [1]] [5, 2] ledger) =
     Inr ([True, True], [[], []]) \<and>
   sub_ok plain 1 [3, 6] [[], [1]] [5, 2] (move 2 1 7 ledger) 0 \<and>
   sub_ok plain 1 [3, 6] [[], [1]] [5, 2] (move 2 1 7 ledger) (Suc 0) \<and>
   emitted (executeBatch_call plain willing 1 2 7 [3, 6] [[], [1]] [5, 2] ledger) =
     [OperationExecuted 3 True [], OperationExecuted 6 True []]"
proof -
  have o: "outcome (executeBatch_call plain willing 1 2 7 [3, 6] [[], [1]] [5, 2] ledger) =
     Inr ([True, True], [[], []])"
    by (simp add: run_defs plain_def willing_def ledger_def)
  show ?thesis
    using o returned_outcomes_follow_input [OF o] by (simp add: All_less_Suc)
qed

text \<open>
  Claim C6 as the spec states it, for every well-formed batch in which every sub-call
  succeeds, does not hold: the batch below is well formed and its only sub-call
  succeeds, but 5 wei are left to refund and the caller's code rejects the payment, so
  the call reverts, returns no outcome and emits no event.
\<close>

theorem returned_outcomes_follow_input_counterexample:
  "length [[] :: bytes] = length [3 :: address] \<and> length [0 :: nat] = length [3 :: address] \<and>
   sub_ok plain 1 [3] [[]] [0] (move 2 1 5 ledger) 0 \<and>
   outcome (executeBatch_call plain refusing 1 2 5 [3] [[]] [0] ledger) = Inl TransferFailed \<and>
   emitted (executeBatch_call plain refusing 1 2 5 [3] [[]] [0] ledger) = []"
  by (simp add: run_defs plain_def refusing_def ledger_def)

text \<open>
  Claim C2, as the code has it. After all sub-calls succeed, the executor reads its
  balance again. If it is lower than the reference balance (the balance at entry minus
  the attached value) the call fails with
  \<open>ETH exceeded: Insufficient funds for transactions\<close> and is rolled back. If it is
  higher, the difference is transferred to the caller when the caller accepts the
  payment; when the caller rejects it (the executor itself always does) the call
  reverts. The difference is the attached value minus the sum of the amounts exactly
  when the sub-calls together have lowered the executor's balance by the sum of their
  amounts; then a caller who attaches more than that sum and accepts the refund recovers
  exactly the surplus, and ends with a balance lowered by exactly the sum of the amounts
  if the sub-calls left that balance alone. The sub-calls lower the executor's balance
  by the sum of their amounts whenever the executor is not a target and the code of the
  targets spares its balance, whatever else that code does.
\<close>

theorem closing_balance_check_and_refund:
  assumes wf1: "length data = length targets" and wf2: "length amount = length targets"
    and ok: "\<forall>j<length targets. sub_ok env this targets data amount (move msg_sender this msg_value s) j"
    and s1: "s1 = sub_state env this targets data amount (move msg_sender this msg_value s) (length targets)"
    and ref: "reference = balance (move msg_sender this msg_value s) this - msg_value"
    and r: "r = executeBatch_call env accepts this msg_sender msg_value targets data amount s"
  shows "(balance s1 this < reference \<longrightarrow>
           r = \<lparr>outcome = Inl (Error ''ETH exceeded: Insufficient funds for transactions''),
                emitted = [], post = s\<rparr>) \<and>
         (balance s1 this = reference \<longrightarrow> \<not> isl (outcome r) \<and> post r = s1) \<and>
         (reference < balance s1 this \<and> msg_sender \<noteq> this \<and>
            accepts msg_sender (balance s1 this - reference) s1 \<longrightarrow>
              \<not> isl (outcome r) \<and> post r = move this msg_sender (balance s1 this - reference) s1) \<and>
         (reference < balance s1 this \<and>
            (msg_sender = this \<or> \<not> accepts msg_sender (balance s1 this - reference) s1) \<longrightarrow>
              r = \<lparr>outcome = Inl TransferFailed, emitted = [], post = s\<rparr>) \<and>
         (sum_list amount < msg_value \<longrightarrow>
            (balance s1 this - reference = msg_value - sum_list amount) =
            (balance s1 this + sum_list amount = reference + msg_value)) \<and>
         (balance s1 this + sum_list amount = reference + msg_value \<and>
            sum_list amount < msg_value \<and> msg_sender \<noteq> this \<and>
            accepts msg_sender (msg_value - sum_list amount) s1 \<longrightarrow>
              \<not> isl (outcome r) \<and>
              post r = move this msg_sender (msg_value - sum_list amount) s1 \<and>
              balance (post r) this = reference) \<and>
         (balance s1 this + sum_list amount = reference + msg_value \<and>
            sum_list amount < msg_value \<and> msg_sender \<noteq> this \<and>
            accepts msg_sender (msg_value - sum_list amount) s1 \<and>
            msg_value \<le> balance s msg_sender \<and>
            balance s1 msg_sender = balance (move msg_sender this msg_value s) msg_sender \<longrightarrow>
              balance (post r) msg_sender = balance s msg_sender - sum_list amount \<and>
              balance (post r) this = balance s this) \<and>
         (spared env this targets data amount (move msg_sender this msg_value s) this \<and>
            this \<notin> set targets \<longrightarrow>
              balance s1 this + sum_list amount = reference + msg_value) \<and>
         (spared env this targets data amount (move msg_sender this msg_value s) msg_sender \<and>
            msg_sender \<notin> set targets \<and> msg_sender \<noteq> this \<longrightarrow>
              balance s1 msg_sender = balance (move msg_sender this msg_value s) msg_sender)"
proof -
  let ?e = "move msg_sender this msg_value s"
  have entry: "msg_value \<le> balance ?e this" by (rule entry_balance)
  have eb: "executeBatch env accepts this msg_sender msg_value targets data amount ?e =
     (if reference > balance s1 this
        then Inl (Error ''ETH exceeded: Insufficient funds for transactions'')
        else if balance s1 this - reference > 0
        then (case transfer accepts this msg_sender (balance s1 this - reference) s1 of
                None \<Rightarrow> Inl TransferFailed
              | Some s3 \<Rightarrow> Inr (map (sub_ok env this targets data amount ?e) [0..<length targets],
                    map (sub_ret env this targets data amount ?e) [0..<length targets],
                    map (\<lambda>j. OperationExecuted (targets ! j) (sub_ok env this targets data amount ?e j)
                      (sub_ret env this targets data amount ?e j)) [0..<length targets], s3))
        else Inr (map (sub_ok env this targets data amount ?e) [0..<length targets],
                    map (sub_ret env this targets data amount ?e) [0..<length targets],
                    map (\<lambda>j. OperationExecuted (targets ! j) (sub_ok env this targets data amount ?e j)
                      (sub_ret env this targets data amount ?e j)) [0..<length targets], s1))"
    unfolding executeBatch_closing [OF wf1 wf2 ok entry] s1 ref Let_def by simp
  have tr: "transfer accepts this msg_sender (balance s1 this - reference) s1 =
      (if msg_sender \<noteq> this \<and> accepts msg_sender (balance s1 this - reference) s1
       then Some (move this msg_sender (balance s1 this - reference) s1) else None)"
  proof -
    have "\<not> balance s1 this < balance s1 this - reference" by arith
    then show ?thesis by (simp add: transfer_def receive_def)
  qed
  have A: "balance s1 this < reference \<longrightarrow>
           r = \<lparr>outcome = Inl (Error ''ETH exceeded: Insufficient funds for transactions''),
                emitted = [], post = s\<rparr>"
    by (simp add: r executeBatch_call_def eb)
  have B: "balance s1 this = reference \<longrightarrow> \<not> isl (outcome r) \<and> post r = s1"
    by (simp add: r executeBatch_call_def eb)
  have C: "reference < balance s1 this \<and> msg_sender \<noteq> this \<and>
            accepts msg_sender (balance s1 this - reference) s1 \<longrightarrow>
              \<not> isl (outcome r) \<and> post r = move this msg_sender (balance s1 this - reference) s1"
    by (simp add: r executeBatch_call_def eb tr)
  have D: "reference < balance s1 this \<and>
            (msg_sender = this \<or> \<not> accepts msg_sender (balance s1 this - reference) s1) \<longrightarrow>
              r = \<lparr>outcome = Inl TransferFailed, emitted = [], post = s\<rparr>"
    by (auto simp add: r executeBatch_call_def eb tr)
  have E: "sum_list amount < msg_value \<longrightarrow>
            (balance s1 this - reference = msg_value - sum_list amount) =
            (balance s1 this + sum_list amount = reference + msg_value)"
    by arith
  have F: "\<not> isl (outcome r) \<and>
              post r = move this msg_sender (msg_value - sum_list amount) s1 \<and>
              balance (post r) this = reference"
    if h: "balance s1 this + sum_list amount = reference + msg_value"
      "sum_list amount < msg_value" "msg_sender \<noteq> this"
      "accepts msg_sender (msg_value - sum_list amount) s1"
  proof -
    have d: "balance s1 this - reference = msg_value - sum_list amount" and lt: "reference < balance s1 this"
      using h(1,2) by simp_all
    have p: "\<not> isl (outcome r) \<and> post r = move this msg_sender (msg_value - sum_list amount) s1"
      using C lt h(3,4) by (simp add: d)
    show ?thesis
      using p d lt h(3) by (simp add: move_def Let_def)
  qed
  have G: "balance (post r) msg_sender = balance s msg_sender - sum_list amount \<and>
              balance (post r) this = balance s this"
    if h: "balance s1 this + sum_list amount = reference + msg_value"
      "sum_list amount < msg_value" "msg_sender \<noteq> this"
      "accepts msg_sender (msg_value - sum_list amount) s1"
      "msg_value \<le> balance s msg_sender"
      "balance s1 msg_sender = balance (move msg_sender this msg_value s) msg_sender"
  proof -
    have b1: "balance s1 msg_sender = balance s msg_sender - msg_value"
      using h(3,6) by (simp add: move_def Let_def)
    have b2: "reference = balance s this"
      using h(3) by (simp add: ref move_def Let_def)
    show ?thesis
      using F [OF h(1,2,3,4)] b1 b2 h(1,2,3,5) by (simp add: move_def Let_def)
  qed
  have H: "balance s1 this + sum_list amount = reference + msg_value"
    if "spared env this targets data amount ?e this" "this \<notin> set targets"
    using spared_executor_balance [OF that, of "length targets"] wf2 ok entry
    by (simp add: s1 ref)
  have I: "balance s1 msg_sender = balance ?e msg_sender"
    if "spared env this targets data amount ?e msg_sender" "msg_sender \<notin> set targets"
      "msg_sender \<noteq> this"
    using spared_other_balance [OF that, of "length targets"] by (simp add: s1)
  show ?thesis using A B C D E F G H I by blast
qed

text \<open>
  First batch: the two targets pass the 5 and 2 wei they are paid on to account 8, so
  their code moves funds, but it spares the executor's and the caller's balance: of the
  10 wei attached the caller gets 3 back. Second batch: the executor holds 7 wei, nothing
  is attached and the sub-call spends 5 of them.
\<close>

theorem closing_balance_check_and_refund_witness:
  "sub_ok forwarder 1 [3, 6] [[], []] [5, 2] (move 2 1 10 ledger) 0 \<and>
   sub_ok forwarder 1 [3, 6] [[], []] [5, 2] (move 2 1 10 ledger) (Suc 0) \<and>
   spared forwarder 1 [3, 6] [[], []] [5, 2] (move 2 1 10 ledger) 1 \<and>
   spared forwarder 1 [3, 6] [[], []] [5, 2] (move 2 1 10 ledger) 2 \<and>
   sum_list [5, 2] < (10 :: nat) \<and>
   \<not> isl (outcome (executeBatch_call forwarder willing 1 2 10 [3, 6] [[], []] [5, 2] ledger)) \<and>
   balance ledger 2 = 100 \<and>
   balance (post (executeBatch_call forwarder willing 1 2 10 [3, 6] [[], []] [5, 2] ledger)) 2 = 93 \<and>
   balance (post (executeBatch_call forwarder willing 1 2 10 [3, 6] [[], []] [5, 2] ledger)) 1 = 0 \<and>
   sub_ok plain 1 [3] [[]] [5] (move 2 1 0 funded) 0 \<and>
   balance (sub_state plain 1 [3] [[]] [5] (move 2 1 0 funded) (Suc 0)) 1 = 2 \<and>
   balance (move 2 1 0 funded) 1 - 0 = 7 \<and>
   executeBatch_call plain willing 1 2 0 [3] [[]] [5] funded =
     \<lparr>outcome = Inl (Error ''ETH exceeded: Insufficient funds for transactions''),
      emitted = [], post = funded\<rparr>"
proof -
  have ok: "\<forall>j<length [3 :: address, 6]. sub_ok forwarder 1 [3, 6] [[], []] [5, 2] (move 2 1 10 ledger) j"
    using forwarder_36(1,2) by (simp add: All_less_Suc)
  have l1: "length [[] :: bytes, []] = length [3 :: address, 6]"
    and l2: "length [5 :: nat, 2] = length [3 :: address, 6]"
    by simp_all
  note t = closing_balance_check_and_refund [of "[[], []]" "[3, 6]" "[5, 2]" forwarder 1 2 10 ledger _ _ _ willing,
        OF l1 l2 ok refl refl refl]
  have tot: "balance (sub_state forwarder 1 [3, 6] [[], []] [5, 2] (move 2 1 10 ledger) (length [3 :: address, 6])) 1
      + sum_list [5, 2] = (balance (move 2 1 10 ledger) 1 - 10) + 10"
    using t forwarder_36(3) by simp
  have own: "balance (sub_state forwarder 1 [3, 6] [[], []] [5, 2] (move 2 1 10 ledger) (length [3 :: address, 6])) 2
      = balance (move 2 1 10 ledger) 2"
    using t forwarder_36(4) by simp
  have a: "\<not> isl (outcome (executeBatch_call forwarder willing 1 2 10 [3, 6] [[], []] [5, 2] ledger)) \<and>
     balance (post (executeBatch_call forwarder willing 1 2 10 [3, 6] [[], []] [5, 2] ledger)) 2 = 93 \<and>
     balance (post (executeBatch_call forwarder willing 1 2 10 [3, 6] [[], []] [5, 2] ledger)) 1 = 0"
  proof -
    have w: "willing 2 (10 - sum_list [5, 2]) (sub_state forwarder 1 [3, 6] [[], []] [5, 2] (move 2 1 10 ledger) (length [3 :: address, 6]))"
      by (simp add: willing_def)
    have v: "(10 :: nat) \<le> balance ledger 2" "sum_list [5, 2] < (10 :: nat)" "(2 :: address) \<noteq> 1"
      by (simp_all add: ledger_def)
    have "\<not> isl (outcome (executeBatch_call forwarder willing 1 2 10 [3, 6] [[], []] [5, 2] ledger)) \<and>
       balance (post (executeBatch_call forwarder willing 1 2 10 [3, 6] [[], []] [5, 2] ledger)) 2 = balance ledger 2 - sum_list [5, 2] \<and>
       balance (post (executeBatch_call forwarder willing 1 2 10 [3, 6] [[], []] [5, 2] ledger)) 1 = balance ledger 1"
      using t tot own w v by blast
    then show ?thesis by (simp add: ledger_def)
  qed
  have ok': "\<forall>j<length [3 :: address]. sub_ok plain 1 [3] [[]] [5] (move 2 1 0 funded) j"
    using plain_3_funded(1) by simp
  have b: "executeBatch_call plain willing 1 2 0 [3] [[]] [5] funded =
     \<lparr>outcome = Inl (Error ''ETH exceeded: Insufficient funds for transactions''),
      emitted = [], post = funded\<rparr>"
    using closing_balance_check_and_refund [of "[[]]" "[3]" "[5]" plain 1 2 0 funded _ _ _ willing,
        OF _ _ ok' refl refl refl]
    by (simp add: funded_def call_def move_def plain_def)
  show ?thesis
    using a b forwarder_36 plain_3_funded by (simp add: ledger_def)
qed

text \<open>
  Claim C2 as the spec states it, that a caller who attaches more than the sum of the
  amounts recovers exactly the surplus, does not hold for every batch. First batch: 10
  wei attached, one sub-call with amount 0 to a contract that calls \<open>withdraw()\<close> of the
  executor; the contract takes the 10 wei, the closing check passes with no difference,
  and the caller recovers nothing. Second batch: 9 wei attached, 4 spent; the caller's
  code rejects the refund of 5 and the call reverts.
\<close>

theorem closing_balance_check_and_refund_counterexample:
  "sub_ok thief 1 [7] [[]] [0] (move 2 1 10 ledger) 0 \<and>
   sum_list [0] < (10 :: nat) \<and>
   outcome (executeBatch_call thief willing 1 2 10 [7] [[]] [0] ledger) = Inr ([True], [[]]) \<and>
   balance ledger 2 = 100 \<and>
   balance (post (executeBatch_call thief willing 1 2 10 [7] [[]] [0] ledger)) 2 = 90 \<and>
   balance (post (executeBatch_call thief willing 1 2 10 [7] [[]] [0] ledger)) 7 = 10 \<and>
   sub_ok plain 1 [3] [[]] [4] (move 2 1 9 ledger) 0 \<and>
   balance (sub_state plain 1 [3] [[]] [4] (move 2 1 9 ledger) (Suc 0)) 1 = 5 \<and>
   executeBatch_call plain refusing 1 2 9 [3] [[]] [4] ledger =
     \<lparr>outcome = Inl TransferFailed, emitted = [], post = ledger\<rparr>"
  by (simp add: run_defs thief_def plain_def willing_def refusing_def ledger_def)

section \<open>Claims about withdraw\<close>

text \<open>
  Claim C9, as the code has it. \<open>withdraw()\<close> is open to every caller. With a zero balance
  it fails with \<open>No funds to withdraw\<close> (the spec's NothingToWithdraw). With a positive
  balance it transfers the whole balance to the caller and leaves the executor with
  nothing, provided the caller accepts the payment; when the caller's code rejects it,
  as the executor's own \<open>receive()\<close> does, the call reverts and nothing changes.
\<close>

theorem withdraw_pays_out_or_reverts:
  "(balance s this = 0 \<longrightarrow>
      withdraw_call accepts this msg_sender s =
        \<lparr>outcome = Inl (Error ''No funds to withdraw''), emitted = [], post = s\<rparr>) \<and>
   (0 < balance s this \<and> msg_sender \<noteq> this \<and> accepts msg_sender (balance s this) s \<longrightarrow>
      outcome (withdraw_call accepts this msg_sender s) = Inr () \<and>
      post (withdraw_call accepts this msg_sender s) = move this msg_sender (balance s this) s \<and>
      balance (post (withdraw_call accepts this msg_sender s)) this = 0 \<and>
      balance (post (withdraw_call accepts this msg_sender s)) msg_sender =
        balance s msg_sender + balance s this) \<and>
   (0 < balance s this \<and> (msg_sender = this \<or> \<not> accepts msg_sender (balance s this) s) \<longrightarrow>
      withdraw_call accepts this msg_sender s =
        \<lparr>outcome = Inl TransferFailed, emitted = [], post = s\<rparr>)"
  by (auto simp add: withdraw_call_def withdraw_def transfer_def receive_def move_def Let_def)

theorem withdraw_pays_out_or_reverts_witness:
  "balance ledger 1 = 0 \<and>
   withdraw_call willing 1 6 ledger =
     \<lparr>outcome = Inl (Error ''No funds to withdraw''), emitted = [], post = ledger\<rparr> \<and>
   balance funded 1 = 7 \<and> balance funded 6 = 0 \<and>
   outcome (withdraw_call willing 1 6 funded) = Inr () \<and>
   balance (post (withdraw_call willing 1 6 funded)) 1 = 0 \<and>
   balance (post (withdraw_call willing 1 6 funded)) 6 = 7"
proof -
  have a: "balance ledger 1 = 0" by (simp add: ledger_def)
  have b: "balance funded 1 = 7" "balance funded 6 = 0" by (simp_all add: funded_def)
  show ?thesis
    using a b withdraw_pays_out_or_reverts [of ledger 1 willing 6]
      withdraw_pays_out_or_reverts [of funded 1 willing 6]
    by (simp add: willing_def move_def)
qed

text \<open>
  Claim C9 as the spec states it, that with a positive balance the whole balance is
  always transferred, does not hold: with 7 wei in the executor, a caller whose code
  rejects payments, and the executor calling itself from a batch, both get a revert and
  the 7 wei stay.
\<close>

theorem withdraw_pays_out_or_reverts_counterexample:
  "balance funded 1 = 7 \<and>
   withdraw_call refusing 1 6 funded = \<lparr>outcome = Inl TransferFailed, emitted = [], post = funded\<rparr> \<and>
   withdraw_call willing 1 1 funded = \<lparr>outcome = Inl TransferFailed, emitted = [], post = funded\<rparr>"
  by (simp add: run_defs refusing_def willing_def funded_def)

section \<open>Facts about the client\<close>

text \<open>
  Adding a transaction appends it when no listed transaction has the same JSON text and
  changes nothing otherwise; so the texts of the listed transactions stay distinct, from
  the constructor on, whatever the operations. For a finite number or a string, being
  \<open>===\<close> and having the same JSON text are the same.
\<close>

lemma add_absent:
  "\<not> list_ex (\<lambda>tx. stringify tx = stringify \<lparr>tx_target = target, tx_value = val, tx_data = data\<rparr>) (transactionList this) \<Longrightarrow>
   addTransactionToList target val data this =
     this\<lparr>transactionList := transactionList this @ [\<lparr>tx_target = target, tx_value = val, tx_data = data\<rparr>]\<rparr>"
  by (simp add: addTransactionToList_def Let_def)

lemma add_present:
  "list_ex (\<lambda>tx. stringify tx = stringify \<lparr>tx_target = target, tx_value = val, tx_data = data\<rparr>) (transactionList this) \<Longrightarrow>
   addTransactionToList target val data this = this"
  by (simp add: addTransactionToList_def Let_def)

lemma add_listed:
  "list_ex (\<lambda>tx. stringify tx = stringify \<lparr>tx_target = target, tx_value = val, tx_data = data\<rparr>)
     (transactionList (addTransactionToList target val data this))"
  by (simp add: addTransactionToList_def Let_def list_ex_iff)

lemma add_twice:
  "addTransactionToList target val data (addTransactionToList target val data this) =
     addTransactionToList target val data this"
  using add_present [OF add_listed] .

lemma add_approvals [simp]:
  "approvalTransactionsList (addTransactionToList target val data this) = approvalTransactionsList this"
  by (simp add: addTransactionToList_def Let_def)

lemma add_distinct:
  "distinct (map stringify (transactionList this)) \<Longrightarrow>
   distinct (map stringify (transactionList (addTransactionToList target val data this)))"
  by (auto simp add: addTransactionToList_def Let_def list_ex_iff)

lemma count_le_one:
  "distinct (map f xs) \<Longrightarrow> length (filter (\<lambda>x. f x = a) xs) \<le> 1"
  by (induction xs) (auto simp add: filter_empty_conv image_iff)

lemma count_after_add:
  assumes "length (filter (\<lambda>tx. stringify tx = stringify \<lparr>tx_target = target, tx_value = val, tx_data = data\<rparr>) (transactionList this)) \<le> 1"
  shows "length (filter (\<lambda>tx. stringify tx = stringify \<lparr>tx_target = target, tx_value = val, tx_data = data\<rparr>)
           (transactionList (addTransactionToList target val data this))) = 1"
proof (cases "list_ex (\<lambda>tx. stringify tx = stringify \<lparr>tx_target = target, tx_value = val, tx_data = data\<rparr>) (transactionList this)")
  case True
  then have "filter (\<lambda>tx. stringify tx = stringify \<lparr>tx_target = target, tx_value = val, tx_data = data\<rparr>) (transactionList this) \<noteq> []"
    by (simp add: filter_empty_conv list_ex_iff)
  then have "0 < length (filter (\<lambda>tx. stringify tx = stringify \<lparr>tx_target = target, tx_value = val, tx_data = data\<rparr>) (transactionList this))"
    by (simp only: length_greater_0_conv not_False_eq_True)
  with assms have "length (filter (\<lambda>tx. stringify tx = stringify \<lparr>tx_target = target, tx_value = val, tx_data = data\<rparr>) (transactionList this)) = 1"
    by linarith
  then show ?thesis by (simp only: add_present [OF True])
next
  case False
  then have "filter (\<lambda>tx. stringify tx = stringify \<lparr>tx_target = target, tx_value = val, tx_data = data\<rparr>) (transactionList this) = []"
    by (simp add: filter_empty_conv list_ex_iff)
  then show ?thesis using False by (simp add: add_absent)
qed

lemma strict_eq_json:
  "compared_by_content val \<Longrightarrow> strict_eq v val = (toJSON v = toJSON val)"
  by (cases val; cases v) simp_all

lemma remove_after_add:
  assumes "\<not> list_ex (\<lambda>tx. stringify tx = stringify \<lparr>tx_target = target, tx_value = val, tx_data = data\<rparr>) (transactionList this)"
    and "compared_by_content val"
  shows "removeTransactionFromList target val data (addTransactionToList target val data this) = this"
proof -
  have "\<forall>tx\<in>set (transactionList this). \<not> (tx_target tx = target \<and> strict_eq (tx_value tx) val \<and> tx_data tx = data)"
    using assms by (auto simp add: list_ex_iff stringify_def strict_eq_json)
  then have "filter (\<lambda>tx. \<not> (tx_target tx = target \<and> strict_eq (tx_value tx) val \<and> tx_data tx = data)) (transactionList this) = transactionList this"
    by (simp add: filter_id_conv)
  moreover have "strict_eq val val"
    using assms(2) by (simp add: strict_eq_json)
  ultimately show ?thesis
    by (simp add: add_absent [OF assms(1)] removeTransactionFromList_def)
qed

lemma perform_distinct:
  "distinct (map stringify (transactionList (fst st))) \<Longrightarrow>
   distinct (map stringify (transactionList (fst (perform net enc numeric signer op st))))"
proof (cases st)
  case (Pair this n)
  assume d: "distinct (map stringify (transactionList (fst st)))"
  show ?thesis
  proof (cases op)
    case (AddTransactionToList target val data)
    then show ?thesis using d Pair by (simp add: add_distinct)
  next
    case (AddERC20Transfer tokenAddress target val)
    then show ?thesis using d Pair
      by (auto simp add: addERC20Transfer_def Let_def add_distinct split: option.splits sum.splits)
  next
    case (AddERC20Approve tokenAddress target val)
    then show ?thesis using d Pair
      by (auto simp add: addERC20Approve_def Let_def add_distinct split: option.splits sum.splits)
  next
    case (RemoveTransactionFromList target val data)
    then show ?thesis using d Pair
      by (simp add: removeTransactionFromList_def distinct_map_filter)
  next
    case ClearTransactionList
    then show ?thesis using Pair by (simp add: clearTransactionList_def)
  next
    case ExecuteBatchTransaction
    then show ?thesis using d Pair
      by (auto simp add: executeBatchTransaction_def clearTransactionList_def Let_def
          split: prod.splits option.splits sum.splits)
  next
    case EstimateGasForBatchTransaction
    then show ?thesis using d Pair
      by (auto simp add: estimateGasForBatchTransaction_def Let_def
          split: prod.splits option.splits sum.splits)
  next
    case GetTransactionList
    then show ?thesis using d Pair by simp
  qed
qed

lemma session_distinct:
  "distinct (map stringify (transactionList (fst st))) \<Longrightarrow>
   distinct (map stringify (transactionList (fst (session net enc numeric signer ops st))))"
  by (induction ops arbitrary: st) (simp_all add: perform_distinct)

text \<open>
  Unless the token's key is inherited and not stored, both ERC20 operations leave the
  approval entries as they were but for the token's, to which the amount is added; on
  such a key they throw and change nothing. No other operation writes the field.
\<close>

lemma approvals_transfer:
  assumes "map_of (approvalTransactionsList this) tokenAddress \<noteq> None \<or> \<not> inherited tokenAddress"
  shows "approvalTransactionsList (snd (addERC20Transfer numeric enc signer tokenAddress target val this)) =
     AList.update tokenAddress (bignum_plus (accumulated this tokenAddress) (numeric val))
       (approvalTransactionsList this)"
  using assms
  by (auto simp add: addERC20Transfer_def accumulated_def Let_def update_conv' update_last
      split: option.splits sum.splits)

lemma approvals_approve:
  assumes "map_of (approvalTransactionsList this) tokenAddress \<noteq> None \<or> \<not> inherited tokenAddress"
  shows "approvalTransactionsList (snd (addERC20Approve numeric enc tokenAddress target val this)) =
     AList.update tokenAddress (bignum_plus (accumulated this tokenAddress) (numeric val))
       (approvalTransactionsList this)"
  using assms
  by (auto simp add: addERC20Approve_def accumulated_def Let_def update_conv' update_last
      split: option.splits sum.splits)

lemma approvals_transfer_inherited:
  assumes "map_of (approvalTransactionsList this) tokenAddress = None" and "inherited tokenAddress"
  shows "addERC20Transfer numeric enc signer tokenAddress target val this = (Inl (Thrown ''TypeError''), this)"
  using assms by (simp add: addERC20Transfer_def Let_def)

lemma approvals_approve_inherited:
  assumes "map_of (approvalTransactionsList this) tokenAddress = None" and "inherited tokenAddress"
  shows "addERC20Approve numeric enc tokenAddress target val this = (Inl (Thrown ''TypeError''), this)"
  using assms by (simp add: addERC20Approve_def Let_def)

lemma accumulated_update:
  "approvalTransactionsList that = AList.update k v (approvalTransactionsList this) \<Longrightarrow>
   accumulated that = (accumulated this)(k := v)"
  by (simp add: accumulated_def update_conv' fun_eq_iff)

lemma keys_update:
  "approvalTransactionsList that = AList.update k v (approvalTransactionsList this) \<Longrightarrow>
   fst ` set (approvalTransactionsList this) \<subseteq> fst ` set (approvalTransactionsList that)"
  using update_keys [of k v "approvalTransactionsList this"]
  by (metis (no_types, lifting) list.set_map set_append subset_refl sup_ge1)

lemma accumulated_transfer:
  assumes "map_of (approvalTransactionsList this) tokenAddress \<noteq> None \<or> \<not> inherited tokenAddress"
  shows "accumulated (snd (addERC20Transfer numeric enc signer tokenAddress target val this)) =
     (accumulated this)(tokenAddress := bignum_plus (accumulated this tokenAddress) (numeric val))"
  by (rule accumulated_update) (rule approvals_transfer [OF assms])

lemma accumulated_approve:
  assumes "map_of (approvalTransactionsList this) tokenAddress \<noteq> None \<or> \<not> inherited tokenAddress"
  shows "accumulated (snd (addERC20Approve numeric enc tokenAddress target val this)) =
     (accumulated this)(tokenAddress := bignum_plus (accumulated this tokenAddress) (numeric val))"
  by (rule accumulated_update) (rule approvals_approve [OF assms])

lemma keys_transfer:
  "fst ` set (approvalTransactionsList this) \<subseteq>
   fst ` set (approvalTransactionsList (snd (addERC20Transfer numeric enc signer tokenAddress target val this)))"
proof (cases "map_of (approvalTransactionsList this) tokenAddress \<noteq> None \<or> \<not> inherited tokenAddress")
  case True
  show ?thesis by (rule keys_update) (rule approvals_transfer [OF True])
next
  case False
  then show ?thesis by (simp add: approvals_transfer_inherited)
qed

lemma keys_approve:
  "fst ` set (approvalTransactionsList this) \<subseteq>
   fst ` set (approvalTransactionsList (snd (addERC20Approve numeric enc tokenAddress target val this)))"
proof (cases "map_of (approvalTransactionsList this) tokenAddress \<noteq> None \<or> \<not> inherited tokenAddress")
  case True
  show ?thesis by (rule keys_update) (rule approvals_approve [OF True])
next
  case False
  then show ?thesis by (simp add: approvals_approve_inherited)
qed

lemma execute_approvals:
  "approvalTransactionsList (snd (fst (executeBatchTransaction net numeric this n))) =
     approvalTransactionsList this"
  by (auto simp add: executeBatchTransaction_def clearTransactionList_def Let_def
      split: prod.splits option.splits sum.splits)

lemma estimate_approvals_kept:
  "approvalTransactionsList (snd (fst (estimateGasForBatchTransaction net numeric this n))) =
     approvalTransactionsList this"
  by (auto simp add: estimateGasForBatchTransaction_def Let_def
      split: prod.splits option.splits sum.splits)

lemma grows_transfer:
  assumes "numeric val = Finite q" and "0 \<le> q" and "accumulated this token = Finite a"
  shows "\<exists>b. a \<le> b \<and> accumulated (snd (addERC20Transfer numeric enc signer tokenAddress target val this)) token = Finite b"
proof (cases "map_of (approvalTransactionsList this) tokenAddress \<noteq> None \<or> \<not> inherited tokenAddress")
  case True
  show ?thesis using assms by (auto simp add: accumulated_transfer [OF True])
next
  case False
  then show ?thesis using assms by (simp add: approvals_transfer_inherited)
qed

lemma grows_approve:
  assumes "numeric val = Finite q" and "0 \<le> q" and "accumulated this token = Finite a"
  shows "\<exists>b. a \<le> b \<and> accumulated (snd (addERC20Approve numeric enc tokenAddress target val this)) token = Finite b"
proof (cases "map_of (approvalTransactionsList this) tokenAddress \<noteq> None \<or> \<not> inherited tokenAddress")
  case True
  show ?thesis using assms by (auto simp add: accumulated_approve [OF True])
next
  case False
  then show ?thesis using assms by (simp add: approvals_approve_inherited)
qed

lemma perform_keys:
  "fst ` set (approvalTransactionsList (fst st)) \<subseteq>
     fst ` set (approvalTransactionsList (fst (perform net enc numeric signer op st)))"
proof (cases st)
  case (Pair this n)
  show ?thesis
  proof (cases op)
    case (AddERC20Transfer tok target val)
    then show ?thesis using Pair keys_transfer [of this numeric enc signer tok target val] by simp
  next
    case (AddERC20Approve tok target val)
    then show ?thesis using Pair keys_approve [of this numeric enc tok target val] by simp
  next
    case ExecuteBatchTransaction
    obtain r this' n' where e: "executeBatchTransaction net numeric this n = ((r, this'), n')"
      by (metis surj_pair)
    have "approvalTransactionsList this' = approvalTransactionsList this"
      using execute_approvals [of net numeric this n] e by simp
    then show ?thesis using Pair ExecuteBatchTransaction e by simp
  next
    case EstimateGasForBatchTransaction
    obtain r this' n' where e: "estimateGasForBatchTransaction net numeric this n = ((r, this'), n')"
      by (metis surj_pair)
    have "approvalTransactionsList this' = approvalTransactionsList this"
      using estimate_approvals_kept [of net numeric this n] e by simp
    then show ?thesis using Pair EstimateGasForBatchTransaction e by simp
  qed (simp_all add: Pair removeTransactionFromList_def clearTransactionList_def)
qed

lemma perform_grows:
  assumes "adds_no_negative numeric op" and "accumulated (fst st) token = Finite a"
  shows "\<exists>b. a \<le> b \<and> accumulated (fst (perform net enc numeric signer op st)) token = Finite b"
proof (cases st)
  case (Pair this n)
  show ?thesis
  proof (cases op)
    case (AddERC20Transfer tok target val)
    then obtain q where "numeric val = Finite q" "0 \<le> q"
      using assms(1) by (auto split: bignum.splits)
    then show ?thesis using AddERC20Transfer Pair assms(2)
        grows_transfer [of numeric val q this token a enc signer tok target] by simp
  next
    case (AddERC20Approve tok target val)
    then obtain q where "numeric val = Finite q" "0 \<le> q"
      using assms(1) by (auto split: bignum.splits)
    then show ?thesis using AddERC20Approve Pair assms(2)
        grows_approve [of numeric val q this token a enc tok target] by simp
  next
    case ExecuteBatchTransaction
    obtain r this' n' where e: "executeBatchTransaction net numeric this n = ((r, this'), n')"
      by (metis surj_pair)
    have "approvalTransactionsList this' = approvalTransactionsList this"
      using execute_approvals [of net numeric this n] e by simp
    then show ?thesis using Pair ExecuteBatchTransaction e assms(2)
      by (simp add: accumulated_def)
  next
    case EstimateGasForBatchTransaction
    obtain r this' n' where e: "estimateGasForBatchTransaction net numeric this n = ((r, this'), n')"
      by (metis surj_pair)
    have "approvalTransactionsList this' = approvalTransactionsList this"
      using estimate_approvals_kept [of net numeric this n] e by simp
    then show ?thesis using Pair EstimateGasForBatchTransaction e assms(2)
      by (simp add: accumulated_def)
  qed (use assms(2) Pair in \<open>simp_all add: accumulated_def removeTransactionFromList_def clearTransactionList_def\<close>)
qed

lemma session_keys:
  "fst ` set (approvalTransactionsList (fst st)) \<subseteq>
     fst ` set (approvalTransactionsList (fst (session net enc numeric signer ops st)))"
proof (induction ops arbitrary: st)
  case Nil
  then show ?case by simp
next
  case (Cons op ops)
  show ?case
    using perform_keys [of st net enc numeric signer op]
      Cons.IH [of "perform net enc numeric signer op st"]
    by (simp only: session.simps order_trans)
qed

lemma session_grows:
  "list_all (adds_no_negative numeric) ops \<Longrightarrow> accumulated (fst st) token = Finite a \<Longrightarrow>
   \<exists>b. a \<le> b \<and> accumulated (fst (session net enc numeric signer ops st)) token = Finite b"
proof (induction ops arbitrary: st a)
  case Nil
  then show ?case by simp
next
  case (Cons op ops)
  obtain b where b: "a \<le> b" "accumulated (fst (perform net enc numeric signer op st)) token = Finite b"
    using perform_grows [of numeric op st token a net enc signer] Cons.prems by auto
  obtain c where c: "b \<le> c" "accumulated (fst (session net enc numeric signer ops (perform net enc numeric signer op st))) token = Finite c"
    using Cons.IH [OF _ b(2)] Cons.prems(1) by auto
  show ?case using b(1) c by (auto intro: order_trans)
qed

text \<open>
  The approval phase: one answer per entry, in order; a failed allowance query or a
  refused approval is a rejection, and there is none when every query is answered and
  every approval accepted.
\<close>

lemma query_entries:
  "map (\<lambda>(tokenAddress, requiredApproval, allowance). (tokenAddress, requiredApproval))
     (fst (query_allowances net entries n)) = entries"
  by (induction net entries n rule: query_allowances.induct) (auto split: prod.splits)

lemma query_all_fail:
  "\<forall>tokenAddress m. isl (fst (rpc_allowance net tokenAddress m)) \<Longrightarrow>
   (tokenAddress, requiredApproval, allowance) \<in> set (fst (query_allowances net entries n)) \<Longrightarrow>
   isl allowance"
proof (induction net entries n rule: query_allowances.induct)
  case (1 net n)
  then show ?case by simp
next
  case (2 net tok req entries n)
  obtain al n1 where a: "rpc_allowance net tok n = (al, n1)" by (metis surj_pair)
  have "isl al" using "2.prems"(1) a by (metis fst_conv)
  then show ?case
    using 2 a by (auto split: prod.splits)
qed

lemma rejected_query_rejects:
  "(tokenAddress, requiredApproval, Inl e) \<in> set answers \<Longrightarrow>
   first_rejection (fst (submit_approvals net answers n)) \<noteq> None"
  by (induction net answers n rule: submit_approvals.induct)
     (auto split: prod.splits sum.splits if_splits)

lemma refused_approval_rejects:
  "\<forall>tokenAddress amount m. isl (fst (rpc_approve net tokenAddress amount m)) \<Longrightarrow>
   (tokenAddress, requiredApproval, Inr allowance) \<in> set answers \<Longrightarrow>
   bignum_lt (Finite (of_nat allowance)) requiredApproval \<Longrightarrow>
   first_rejection (fst (submit_approvals net answers n)) \<noteq> None"
proof (induction net answers n rule: submit_approvals.induct)
  case (1 net n)
  then show ?case by simp
next
  case (2 net tok req e answers n)
  then show ?case by (auto split: prod.splits)
next
  case (3 net tok req al answers n)
  show ?case
  proof (cases "bignum_lt (Finite (of_nat al)) req")
    case True
    obtain res n1 where a: "rpc_approve net tok req n = (res, n1)" by (metis surj_pair)
    have "isl res" using "3.prems"(1) a by (metis fst_conv)
    then obtain e where "res = Inl e" by (cases res) auto
    then show ?thesis using True a by (auto split: prod.splits)
  next
    case False
    then have "(tokenAddress, requiredApproval, Inr allowance) \<in> set answers"
      using "3.prems" by auto
    then show ?thesis
      using False "3.IH"(3) [OF False "3.prems"(1) _ "3.prems"(3)] by (auto split: prod.splits)
  qed
qed

lemma accepted_approvals_settle:
  "\<forall>tokenAddress amount m. \<not> isl (fst (rpc_approve net tokenAddress amount m)) \<Longrightarrow>
   \<forall>t\<in>set answers. \<not> isl (snd (snd t)) \<Longrightarrow>
   first_rejection (fst (submit_approvals net answers n)) = None"
proof (induction net answers n rule: submit_approvals.induct)
  case (1 net n)
  then show ?case by simp
next
  case (2 net tok req e answers n)
  then show ?case by simp
next
  case (3 net tok req al answers n)
  show ?case
  proof (cases "bignum_lt (Finite (of_nat al)) req")
    case True
    obtain res n1 where a: "rpc_approve net tok req n = (res, n1)" by (metis surj_pair)
    have "\<not> isl res" using "3.prems"(1) a by (metis fst_conv)
    then obtain tx where r: "res = Inr tx" by (cases res) auto
    show ?thesis
      using True a r "3.IH"(2) [OF True a [symmetric] r "3.prems"(1)] "3.prems"(2)
      by (auto split: prod.splits)
  next
    case False
    show ?thesis
      using False "3.IH"(3) [OF False "3.prems"(1)] "3.prems"(2)
      by (auto split: prod.splits)
  qed
qed

text \<open>The facts used to evaluate the examples.\<close>

lemmas sdk_defs = addTransactionToList_def removeTransactionFromList_def clearTransactionList_def
  addERC20Transfer_def addERC20Approve_def executeBatchTransaction_def constructor_def
  stringify_def recording_def approval_refusing_def abi_def decimal_def accumulated_def
  inherited_def two_pending_def Let_def

lemma two_pending_built:
  "addTransactionToList ''0xA'' (Num 5) ''0x''
     (snd (addERC20Transfer decimal abi ''0xSigner'' ''0xToken'' ''0xR'' ''1000'' constructor)) = two_pending"
  by (simp add: sdk_defs)

lemma run_confirmed:
  "query_allowances (recording 0 True) (approvalTransactionsList two_pending) [] =
     ([(''0xToken'', Finite 1000, Inr 0)], [Allowance ''0xToken''])"
  "submit_approvals (recording 0 True) [(''0xToken'', Finite 1000, Inr 0)] [Allowance ''0xToken''] =
     ([Inr (Some 1)], [Allowance ''0xToken'', Approve ''0xToken'' (Finite 1000)])"
  "rpc_executeBatch (recording 0 True) (map tx_target (transactionList two_pending))
     (map tx_data (transactionList two_pending)) (map tx_value (transactionList two_pending))
     (totalValue decimal (map tx_value (transactionList two_pending)) (Finite 0))
     [Allowance ''0xToken'', Approve ''0xToken'' (Finite 1000)] =
     (Inr 2, [Allowance ''0xToken'', Approve ''0xToken'' (Finite 1000),
        ExecuteBatch [''0xToken'', ''0xA''] [''0x23b872dd'', ''0x''] [Num 0, Num 5] (Finite 5)])"
  by (simp_all add: sdk_defs)

lemma run_unconfirmed:
  "query_allowances (recording 0 False) (approvalTransactionsList two_pending) [] =
     ([(''0xToken'', Finite 1000, Inr 0)], [Allowance ''0xToken''])"
  "submit_approvals (recording 0 False) [(''0xToken'', Finite 1000, Inr 0)] [Allowance ''0xToken''] =
     ([Inr (Some 1)], [Allowance ''0xToken'', Approve ''0xToken'' (Finite 1000)])"
  "rpc_executeBatch (recording 0 False) (map tx_target (transactionList two_pending))
     (map tx_data (transactionList two_pending)) (map tx_value (transactionList two_pending))
     (totalValue decimal (map tx_value (transactionList two_pending)) (Finite 0))
     [Allowance ''0xToken'', Approve ''0xToken'' (Finite 1000)] =
     (Inr 2, [Allowance ''0xToken'', Approve ''0xToken'' (Finite 1000),
        ExecuteBatch [''0xToken'', ''0xA''] [''0x23b872dd'', ''0x''] [Num 0, Num 5] (Finite 5)])"
  by (simp_all add: sdk_defs)

lemma run_refused:
  "query_allowances approval_refusing (approvalTransactionsList two_pending) [] =
     ([(''0xToken'', Finite 1000, Inr 0)], [Allowance ''0xToken''])"
  "submit_approvals approval_refusing [(''0xToken'', Finite 1000, Inr 0)] [Allowance ''0xToken''] =
     ([Inl (Thrown ''approval refused'')], [Allowance ''0xToken'', Approve ''0xToken'' (Finite 1000)])"
  "rpc_executeBatch approval_refusing (map tx_target (transactionList two_pending))
     (map tx_data (transactionList two_pending)) (map tx_value (transactionList two_pending))
     (totalValue decimal (map tx_value (transactionList two_pending)) (Finite 0))
     [Allowance ''0xToken'', Approve ''0xToken'' (Finite 1000)] =
     (Inr 2, [Allowance ''0xToken'', Approve ''0xToken'' (Finite 1000),
        ExecuteBatch [''0xToken'', ''0xA''] [''0x23b872dd'', ''0x''] [Num 0, Num 5] (Finite 5)])"
  by (simp_all add: sdk_defs)

section \<open>Claims about the client\<close>

text \<open>
  Claim C8, as the code has it. Adding the same \<open>(target, value, data)\<close> triple twice is
  the same as adding it once, and in every state the SDK's operations can reach from a
  new instance the list then holds exactly one entry with that JSON text. When the list
  held no such entry before and the value is a finite number or a string, two adds
  followed by one remove of the same triple give back the list prior to either add.
\<close>

theorem add_idempotent_remove_inverse:
  "addTransactionToList target val data (addTransactionToList target val data this) =
     addTransactionToList target val data this \<and>
   length (filter (\<lambda>tx. stringify tx = stringify \<lparr>tx_target = target, tx_value = val, tx_data = data\<rparr>)
     (transactionList (addTransactionToList target val data (addTransactionToList target val data
        (fst (session net enc numeric signer ops (constructor, n))))))) = 1 \<and>
   (\<not> list_ex (\<lambda>tx. stringify tx = stringify \<lparr>tx_target = target, tx_value = val, tx_data = data\<rparr>)
        (transactionList this) \<and> compared_by_content val \<longrightarrow>
      removeTransactionFromList target val data
        (addTransactionToList target val data (addTransactionToList target val data this)) = this)"
proof -
  have "distinct (map stringify (transactionList (fst (session net enc numeric signer ops (constructor, n)))))"
    by (rule session_distinct) (simp add: constructor_def)
  then have "length (filter (\<lambda>tx. stringify tx = stringify \<lparr>tx_target = target, tx_value = val, tx_data = data\<rparr>)
     (transactionList (fst (session net enc numeric signer ops (constructor, n))))) \<le> 1"
    by (rule count_le_one)
  then show ?thesis
    by (simp add: add_twice count_after_add remove_after_add)
qed

theorem add_idempotent_remove_inverse_witness:
  "\<not> list_ex (\<lambda>tx. stringify tx = stringify \<lparr>tx_target = ''0xA'', tx_value = Str ''1000'', tx_data = ''0x''\<rparr>)
       (transactionList two_pending) \<and>
   compared_by_content (Str ''1000'') \<and>
   removeTransactionFromList ''0xA'' (Str ''1000'') ''0x''
     (addTransactionToList ''0xA'' (Str ''1000'') ''0x'' (addTransactionToList ''0xA'' (Str ''1000'') ''0x''
        two_pending)) = two_pending"
proof -
  have a: "\<not> list_ex (\<lambda>tx. stringify tx = stringify \<lparr>tx_target = ''0xA'', tx_value = Str ''1000'', tx_data = ''0x''\<rparr>)
       (transactionList two_pending)"
    by (simp add: sdk_defs)
  have b: "compared_by_content (Str ''1000'')" by simp
  show ?thesis
    using a b add_idempotent_remove_inverse [of "''0xA''" "Str ''1000''" "''0x''" two_pending
        "recording 0 True" abi decimal "''0xSigner''" "[]" "[]"]
    by blast
qed

text \<open>
  Claim C8 as the spec states it, for every list state, does not hold: when the triple is
  in the list already, the two adds change nothing and the remove takes the entry out,
  so the list is shorter than before the adds.
\<close>

theorem add_idempotent_remove_inverse_counterexample:
  "transactionList (addTransactionToList ''0xA'' (Str ''1000'') ''0x'' constructor) =
     [\<lparr>tx_target = ''0xA'', tx_value = Str ''1000'', tx_data = ''0x''\<rparr>] \<and>
   transactionList (removeTransactionFromList ''0xA'' (Str ''1000'') ''0x''
     (addTransactionToList ''0xA'' (Str ''1000'') ''0x'' (addTransactionToList ''0xA'' (Str ''1000'') ''0x''
        (addTransactionToList ''0xA'' (Str ''1000'') ''0x'' constructor)))) = []"
  by (simp add: sdk_defs)

text \<open>
  Claim C7. \<open>executeBatchTransaction\<close> clears the pending list exactly when the batch
  transaction confirms. With an empty list it throws at once. Otherwise, when the
  approval phase has a rejection (and it has one whenever an allowance query fails or a
  needed approval is refused) it throws that rejection; when the submission of the batch
  is rejected it throws; when the submission is accepted and \<open>wait()\<close> on it throws, it
  throws; in all these cases the SDK, its pending list included, is exactly as before.
  When \<open>wait()\<close> resolves, it returns the transaction and the SDK is as before with an
  empty list. Conversely a returned transaction means that all of this happened, and a
  thrown error that the SDK is unchanged.
\<close>

theorem pending_list_cleared_on_confirmation:
  assumes q: "query_allowances net (approvalTransactionsList this) n = (answers, n1)"
    and a: "submit_approvals net answers n1 = (settled, n2)"
    and b: "rpc_executeBatch net (map tx_target (transactionList this))
              (map tx_data (transactionList this)) (map tx_value (transactionList this))
              (totalValue numeric (map tx_value (transactionList this)) (Finite 0)) n2 = (sent, n3)"
  shows "(transactionList this = [] \<longrightarrow>
            executeBatchTransaction net numeric this n =
              ((Inl (Thrown ''Transaction list is empty''), this), n)) \<and>
         (transactionList this \<noteq> [] \<longrightarrow>
            (\<forall>e. first_rejection settled = Some e \<longrightarrow>
                executeBatchTransaction net numeric this n = ((Inl e, this), n2)) \<and>
            (first_rejection settled = None \<longrightarrow>
               (\<forall>e. sent = Inl e \<longrightarrow>
                   executeBatchTransaction net numeric this n = ((Inl e, this), n3)) \<and>
               (\<forall>tx e n4. sent = Inr tx \<and> rpc_wait net tx n3 = (Inl e, n4) \<longrightarrow>
                   executeBatchTransaction net numeric this n = ((Inl e, this), n4)) \<and>
               (\<forall>tx n4. sent = Inr tx \<and> rpc_wait net tx n3 = (Inr (), n4) \<longrightarrow>
                   executeBatchTransaction net numeric this n =
                     ((Inr tx, this\<lparr>transactionList := []\<rparr>), n4)))) \<and>
         map (\<lambda>(tokenAddress, requiredApproval, allowance). (tokenAddress, requiredApproval)) answers =
           approvalTransactionsList this \<and>
         ((\<exists>tokenAddress requiredApproval e. (tokenAddress, requiredApproval, Inl e) \<in> set answers) \<longrightarrow>
            first_rejection settled \<noteq> None) \<and>
         (approvalTransactionsList this \<noteq> [] \<and>
            (\<forall>tokenAddress m. isl (fst (rpc_allowance net tokenAddress m))) \<longrightarrow>
              first_rejection settled \<noteq> None) \<and>
         ((\<forall>tokenAddress amount m. isl (fst (rpc_approve net tokenAddress amount m))) \<and>
            (\<exists>tokenAddress requiredApproval allowance.
                (tokenAddress, requiredApproval, Inr allowance) \<in> set answers \<and>
                bignum_lt (Finite (of_nat allowance)) requiredApproval) \<longrightarrow>
              first_rejection settled \<noteq> None) \<and>
         ((\<forall>tokenAddress amount m. \<not> isl (fst (rpc_approve net tokenAddress amount m))) \<and>
            (\<forall>t\<in>set answers. \<not> isl (snd (snd t))) \<longrightarrow>
              first_rejection settled = None) \<and>
         (\<forall>result this' n'. executeBatchTransaction net numeric this n = ((result, this'), n') \<longrightarrow>
            (case result of
               Inl e \<Rightarrow> this' = this
             | Inr tx \<Rightarrow>
                 transactionList this \<noteq> [] \<and> first_rejection settled = None \<and> sent = Inr tx \<and>
                 rpc_wait net tx n3 = (Inr (), n') \<and> this' = this\<lparr>transactionList := []\<rparr>))"
proof -
  have A: "transactionList this = [] \<longrightarrow>
            executeBatchTransaction net numeric this n =
              ((Inl (Thrown ''Transaction list is empty''), this), n)"
    by (simp add: executeBatchTransaction_def)
  have B: "transactionList this \<noteq> [] \<longrightarrow>
            (\<forall>e. first_rejection settled = Some e \<longrightarrow>
                executeBatchTransaction net numeric this n = ((Inl e, this), n2)) \<and>
            (first_rejection settled = None \<longrightarrow>
               (\<forall>e. sent = Inl e \<longrightarrow>
                   executeBatchTransaction net numeric this n = ((Inl e, this), n3)) \<and>
               (\<forall>tx e n4. sent = Inr tx \<and> rpc_wait net tx n3 = (Inl e, n4) \<longrightarrow>
                   executeBatchTransaction net numeric this n = ((Inl e, this), n4)) \<and>
               (\<forall>tx n4. sent = Inr tx \<and> rpc_wait net tx n3 = (Inr (), n4) \<longrightarrow>
                   executeBatchTransaction net numeric this n =
                     ((Inr tx, this\<lparr>transactionList := []\<rparr>), n4)))"
    using q a b by (simp add: executeBatchTransaction_def clearTransactionList_def Let_def)
  have C: "map (\<lambda>(tokenAddress, requiredApproval, allowance). (tokenAddress, requiredApproval)) answers =
           approvalTransactionsList this"
    using query_entries [of net "approvalTransactionsList this" n] q by simp
  have D: "(\<exists>tokenAddress requiredApproval e. (tokenAddress, requiredApproval, Inl e) \<in> set answers) \<longrightarrow>
            first_rejection settled \<noteq> None"
    using rejected_query_rejects [of _ _ _ answers net n1] a by auto
  have E: "approvalTransactionsList this \<noteq> [] \<and>
            (\<forall>tokenAddress m. isl (fst (rpc_allowance net tokenAddress m))) \<longrightarrow>
              first_rejection settled \<noteq> None"
  proof
    assume h: "approvalTransactionsList this \<noteq> [] \<and>
            (\<forall>tokenAddress m. isl (fst (rpc_allowance net tokenAddress m)))"
    then have "answers \<noteq> []" using C by auto
    then obtain tok req al where m: "(tok, req, al) \<in> set answers"
      by (metis last_in_set prod_cases3)
    have "isl al"
      using query_all_fail [of net tok req al "approvalTransactionsList this" n] h q m by simp
    then obtain e where "al = Inl e" by (cases al) auto
    then show "first_rejection settled \<noteq> None" using D m by blast
  qed
  have F: "(\<forall>tokenAddress amount m. isl (fst (rpc_approve net tokenAddress amount m))) \<and>
            (\<exists>tokenAddress requiredApproval allowance.
                (tokenAddress, requiredApproval, Inr allowance) \<in> set answers \<and>
                bignum_lt (Finite (of_nat allowance)) requiredApproval) \<longrightarrow>
              first_rejection settled \<noteq> None"
    using refused_approval_rejects [of net _ _ _ answers n1] a by (metis fst_conv)
  have G: "(\<forall>tokenAddress amount m. \<not> isl (fst (rpc_approve net tokenAddress amount m))) \<and>
            (\<forall>t\<in>set answers. \<not> isl (snd (snd t))) \<longrightarrow>
              first_rejection settled = None"
    using accepted_approvals_settle [of net answers n1] a by simp
  have H: "\<forall>result this' n'. executeBatchTransaction net numeric this n = ((result, this'), n') \<longrightarrow>
            (case result of
               Inl e \<Rightarrow> this' = this
             | Inr tx \<Rightarrow>
                 transactionList this \<noteq> [] \<and> first_rejection settled = None \<and> sent = Inr tx \<and>
                 rpc_wait net tx n3 = (Inr (), n') \<and> this' = this\<lparr>transactionList := []\<rparr>)"
    using q a b
    by (auto simp add: executeBatchTransaction_def clearTransactionList_def Let_def
        split: prod.splits option.splits sum.splits if_splits)
  show ?thesis using A B C D E F G H by blast
qed

text \<open>
  Two transactions are pending, one of them an ERC20 transfer that needs an approval.
  On a network that mines the batch the approval is submitted, the batch confirms and
  the list is emptied; when the batch fails to confirm, and when the approval is
  refused, the error is thrown and both entries stay.
\<close>

theorem pending_list_cleared_on_confirmation_witness:
  "length (transactionList two_pending) = 2 \<and>
   executeBatchTransaction (recording 0 True) decimal two_pending [] =
     ((Inr 2, two_pending\<lparr>transactionList := []\<rparr>),
      [Allowance ''0xToken'', Approve ''0xToken'' (Finite 1000),
       ExecuteBatch [''0xToken'', ''0xA''] [''0x23b872dd'', ''0x''] [Num 0, Num 5] (Finite 5), Wait 2]) \<and>
   executeBatchTransaction (recording 0 False) decimal two_pending [] =
     ((Inl (Thrown ''transaction failed''), two_pending),
      [Allowance ''0xToken'', Approve ''0xToken'' (Finite 1000),
       ExecuteBatch [''0xToken'', ''0xA''] [''0x23b872dd'', ''0x''] [Num 0, Num 5] (Finite 5), Wait 2]) \<and>
   executeBatchTransaction approval_refusing decimal two_pending [] =
     ((Inl (Thrown ''approval refused''), two_pending),
      [Allowance ''0xToken'', Approve ''0xToken'' (Finite 1000)])"
proof -
  have l: "length (transactionList two_pending) = 2" "transactionList two_pending \<noteq> []"
    by (simp_all add: two_pending_def)
  have w1: "rpc_wait (recording 0 True) 2 [Allowance ''0xToken'', Approve ''0xToken'' (Finite 1000),
        ExecuteBatch [''0xToken'', ''0xA''] [''0x23b872dd'', ''0x''] [Num 0, Num 5] (Finite 5)] =
      (Inr (), [Allowance ''0xToken'', Approve ''0xToken'' (Finite 1000),
        ExecuteBatch [''0xToken'', ''0xA''] [''0x23b872dd'', ''0x''] [Num 0, Num 5] (Finite 5), Wait 2])"
    by (simp add: recording_def)
  have w2: "rpc_wait (recording 0 False) 2 [Allowance ''0xToken'', Approve ''0xToken'' (Finite 1000),
        ExecuteBatch [''0xToken'', ''0xA''] [''0x23b872dd'', ''0x''] [Num 0, Num 5] (Finite 5)] =
      (Inl (Thrown ''transaction failed''), [Allowance ''0xToken'', Approve ''0xToken'' (Finite 1000),
        ExecuteBatch [''0xToken'', ''0xA''] [''0x23b872dd'', ''0x''] [Num 0, Num 5] (Finite 5), Wait 2])"
    by (simp add: recording_def)
  have f1: "first_rejection [Inr (Some (1 :: nat))] = None"
    and f2: "first_rejection [Inl (Thrown ''approval refused'') :: js_error + nat option] =
      Some (Thrown ''approval refused'')"
    by simp_all
  have a: "executeBatchTransaction (recording 0 True) decimal two_pending [] =
     ((Inr 2, two_pending\<lparr>transactionList := []\<rparr>),
      [Allowance ''0xToken'', Approve ''0xToken'' (Finite 1000),
       ExecuteBatch [''0xToken'', ''0xA''] [''0x23b872dd'', ''0x''] [Num 0, Num 5] (Finite 5), Wait 2])"
    using pending_list_cleared_on_confirmation [OF run_confirmed] l(2) f1 w1 by blast
  have b: "executeBatchTransaction (recording 0 False) decimal two_pending [] =
     ((Inl (Thrown ''transaction failed''), two_pending),
      [Allowance ''0xToken'', Approve ''0xToken'' (Finite 1000),
       ExecuteBatch [''0xToken'', ''0xA''] [''0x23b872dd'', ''0x''] [Num 0, Num 5] (Finite 5), Wait 2])"
    using pending_list_cleared_on_confirmation [OF run_unconfirmed] l(2) f1 w2 by blast
  have c: "executeBatchTransaction approval_refusing decimal two_pending [] =
     ((Inl (Thrown ''approval refused''), two_pending),
      [Allowance ''0xToken'', Approve ''0xToken'' (Finite 1000)])"
    using pending_list_cleared_on_confirmation [OF run_refused] l(2) f2 by blast
  show ?thesis using l(1) a b c by simp
qed

text \<open>
  Claim C10, as the code has it. The approval accumulator is never reset. For a token
  key that is stored or not inherited, \<open>addERC20Transfer\<close> and \<open>addERC20Approve\<close> each
  add the given value to the token's accumulated amount, with \<open>plus\<close> of \<open>bignumber.js\<close>
  and before anything checks the value, and leave the other tokens' amounts alone.
  No other operation changes \<open>approvalTransactionsList\<close>: not \<open>clearTransactionList\<close>,
  not \<open>executeBatchTransaction\<close>, successful or not. Over any sequence of SDK
  operations no entry disappears, and when every amount added is a number that is not
  negative, no accumulated amount gets lower; so the amounts of earlier submissions are
  still there at every later \<open>executeBatchTransaction\<close>.
\<close>

theorem approvals_carry_over:
  "(map_of (approvalTransactionsList this) tokenAddress \<noteq> None \<or> \<not> inherited tokenAddress \<longrightarrow>
      accumulated (snd (addERC20Transfer numeric enc signer tokenAddress target val this)) =
        (accumulated this)(tokenAddress := bignum_plus (accumulated this tokenAddress) (numeric val)) \<and>
      accumulated (snd (addERC20Approve numeric enc tokenAddress target val this)) =
        (accumulated this)(tokenAddress := bignum_plus (accumulated this tokenAddress) (numeric val))) \<and>
   approvalTransactionsList (addTransactionToList target tv data this) = approvalTransactionsList this \<and>
   approvalTransactionsList (removeTransactionFromList target tv data this) = approvalTransactionsList this \<and>
   approvalTransactionsList (clearTransactionList this) = approvalTransactionsList this \<and>
   approvalTransactionsList (snd (fst (executeBatchTransaction net numeric this n))) =
     approvalTransactionsList this \<and>
   approvalTransactionsList (snd (fst (estimateGasForBatchTransaction net numeric this n))) =
     approvalTransactionsList this \<and>
   fst ` set (approvalTransactionsList this) \<subseteq>
     fst ` set (approvalTransactionsList (fst (session net enc numeric signer ops (this, n)))) \<and>
   (list_all (adds_no_negative numeric) ops \<and> accumulated this token = Finite a \<longrightarrow>
      (\<exists>b. a \<le> b \<and>
         accumulated (fst (session net enc numeric signer ops (this, n))) token = Finite b))"
  using session_keys [of "(this, n)" net enc numeric signer ops]
    session_grows [of numeric ops "(this, n)" token a net enc signer]
  by (simp add: accumulated_transfer accumulated_approve execute_approvals estimate_approvals_kept
      clearTransactionList_def removeTransactionFromList_def)

theorem approvals_carry_over_witness:
  "\<not> inherited ''0xToken'' \<and>
   accumulated (snd (addERC20Transfer decimal abi ''0xSigner'' ''0xToken'' ''0xR'' ''1000'' constructor))
     ''0xToken'' = Finite 1000 \<and>
   list_all (adds_no_negative decimal)
     [AddERC20Transfer ''0xToken'' ''0xR'' ''1000'', ExecuteBatchTransaction, ClearTransactionList,
      AddERC20Approve ''0xToken'' ''0xR'' ''1000''] \<and>
   accumulated (fst (session (recording 0 True) abi decimal ''0xSigner''
      [AddERC20Transfer ''0xToken'' ''0xR'' ''1000'', ExecuteBatchTransaction, ClearTransactionList]
      (constructor, []))) ''0xToken'' = Finite 1000 \<and>
   accumulated (fst (session (recording 0 True) abi decimal ''0xSigner''
      [AddERC20Transfer ''0xToken'' ''0xR'' ''1000'', ExecuteBatchTransaction, ClearTransactionList,
       AddERC20Approve ''0xToken'' ''0xR'' ''1000'']
      (constructor, []))) ''0xToken'' = Finite 2000"
proof -
  have i: "\<not> inherited ''0xToken''" by (simp add: inherited_def)
  have a: "accumulated (snd (addERC20Transfer decimal abi ''0xSigner'' ''0xToken'' ''0xR'' ''1000'' constructor))
     ''0xToken'' = Finite 1000"
    using i approvals_carry_over [where numeric = decimal and enc = abi and signer = "''0xSigner''"
        and tokenAddress = "''0xToken''" and target = "''0xR''" and val = "''1000''" and this = constructor
        and net = "recording 0 True" and n = "[]" and ops = "[]" and token = "''0xToken''"
        and a = 0 and tv = "Num 0" and data = "''0x''"]
    by (simp add: accumulated_def constructor_def decimal_def)
  show ?thesis
    using i a by (simp add: sdk_defs)
qed

text \<open>
  Claim C10 as the spec states it, that the accumulated amount only ever grows, does not
  hold: the value is added as the caller gave it. After a transfer of \<open>1000\<close>, a transfer
  of \<open>-1000\<close> throws when the call is encoded, but has brought the token's amount back
  to 0 by then; and an approval of a value that is no number leaves the amount \<open>NaN\<close>.
\<close>

theorem approvals_carry_over_counterexample:
  "accumulated (snd (addERC20Transfer decimal abi ''0xSigner'' ''0xToken'' ''0xR'' ''1000'' constructor))
     ''0xToken'' = Finite 1000 \<and>
   addERC20Transfer decimal abi ''0xSigner'' ''0xToken'' ''0xR'' ''-1000''
     (snd (addERC20Transfer decimal abi ''0xSigner'' ''0xToken'' ''0xR'' ''1000'' constructor)) =
     (Inl (Thrown ''invalid BigNumber string''),
      \<lparr>transactionList = [\<lparr>tx_target = ''0xToken'', tx_value = Num 0, tx_data = ''0x23b872dd''\<rparr>],
       approvalTransactionsList = [(''0xToken'', Finite 0)]\<rparr>) \<and>
   accumulated (snd (addERC20Transfer decimal abi ''0xSigner'' ''0xToken'' ''0xR'' ''-1000''
     (snd (addERC20Transfer decimal abi ''0xSigner'' ''0xToken'' ''0xR'' ''1000'' constructor))))
     ''0xToken'' = Finite 0 \<and>
   accumulated (snd (addERC20Approve decimal abi ''0xToken'' ''0xR'' ''a lot''
     (snd (addERC20Transfer decimal abi ''0xSigner'' ''0xToken'' ''0xR'' ''1000'' constructor))))
     ''0xToken'' = NotANumber"
  by (simp add: sdk_defs)

text \<open>
  Claim C4, at a failing input. One ERC20 transfer of 1000 is pending and the on-chain
  allowance is 0. The requests \<open>executeBatchTransaction\<close> makes are, in order: the
  allowance query, the submission of the approval (handle 1), the submission of
  \<open>executeBatch\<close> (handle 2), and the wait for the receipt of handle 2. The receipt of
  the approval is never waited for: \<open>executeBatch\<close> is submitted as soon as the approval
  has been submitted, whether or not it has been mined.
\<close>

theorem approval_not_awaited:
  "executeBatchTransaction (recording 0 True) decimal
       (snd (addERC20Transfer decimal abi ''0xSigner'' ''0xToken'' ''0xR'' ''1000'' constructor)) [] =
     ((Inr 2, \<lparr>transactionList = [], approvalTransactionsList = [(''0xToken'', Finite 1000)]\<rparr>),
      [Allowance ''0xToken'', Approve ''0xToken'' (Finite 1000),
       ExecuteBatch [''0xToken''] [''0x23b872dd''] [Num 0] (Finite 0), Wait 2])"
  by (simp add: sdk_defs)

end
